theory Spec2Isabelle
  imports Main "HOL-Library.Sublist"
begin

section \<open>Yoga pose image generator: a shallow embedding of \<open>main.py\<close>\<close>

text \<open>
  The script reads pose rows from a sheet, builds a prompt for each row, asks an image
  provider for a picture, uploads it to a file store and writes an image formula back
  into the sheet. Every call to the outside (HTTP, Drive, Sheets, logging, sleeping) is
  an entry of an event trace; what the outside answers is read from a \<open>world\<close> value;
  a Python exception is a value of type \<open>exn\<close>.
\<close>

subsection \<open>Python strings\<close>

text \<open>
  A Python \<open>str\<close> is modelled as a list of code points below 256 (\<open>char\<close>).
  \<open>str.replace(old, new)\<close> scans from the left and replaces non-overlapping
  occurrences; with an empty \<open>old\<close> it puts \<open>new\<close> before every character and at
  the end.
\<close>

function py_replace :: "string \<Rightarrow> string \<Rightarrow> string \<Rightarrow> string" where
  "py_replace old new [] = (if old = [] then new else [])"
| "py_replace old new (c # cs) =
     (if old = [] then new @ c # py_replace old new cs
      else if prefix old (c # cs) then new @ py_replace old new (drop (length old) (c # cs))
      else c # py_replace old new cs)"
  by pat_completeness auto
termination
  by (relation "measure (\<lambda>(old, new, s). length s)") auto

text \<open>The operator \<open>sub in s\<close> on two strings.\<close>

fun py_in :: "string \<Rightarrow> string \<Rightarrow> bool" where
  "py_in sub [] = (sub = [])"
| "py_in sub (c # cs) = (prefix sub (c # cs) \<or> py_in sub cs)"

text \<open>
  \<open>str.isspace\<close> on one character, for code points below 256: tab to carriage return,
  the four separators \<open>0x1c\<close> to \<open>0x1f\<close>, the space, \<open>0x85\<close> and \<open>0xa0\<close>.
\<close>

definition isspace :: "char \<Rightarrow> bool" where
  "isspace c = (let n = (of_char c :: nat) in
     (9 \<le> n \<and> n \<le> 13) \<or> (28 \<le> n \<and> n \<le> 32) \<or> n = 133 \<or> n = 160)"

definition lstrip :: "string \<Rightarrow> string" where
  "lstrip s = dropWhile isspace s"

definition rstrip :: "string \<Rightarrow> string" where
  "rstrip s = rev (dropWhile isspace (rev s))"

definition strip :: "string \<Rightarrow> string" where
  "strip s = rstrip (lstrip s)"

text \<open>\<open>str.lower\<close> and \<open>str.upper\<close>; the latter on ASCII only (it is applied to the
  provider name, which the argument parser restricts to three ASCII words).\<close>

definition lower_char :: "char \<Rightarrow> char" where
  "lower_char c = (let n = (of_char c :: nat) in
     if (65 \<le> n \<and> n \<le> 90) \<or> (192 \<le> n \<and> n \<le> 222 \<and> n \<noteq> 215) then char_of (n + 32) else c)"

definition lower :: "string \<Rightarrow> string" where
  "lower s = map lower_char s"

definition upper_char :: "char \<Rightarrow> char" where
  "upper_char c = (let n = (of_char c :: nat) in
     if 97 \<le> n \<and> n \<le> 122 then char_of (n - 32) else c)"

definition upper :: "string \<Rightarrow> string" where
  "upper s = map upper_char s"

text \<open>\<open>str(n)\<close> for a non-negative integer: decimal digits, no leading zero.\<close>

definition digit_char :: "nat \<Rightarrow> char" where
  "digit_char d = ''0123456789'' ! d"

fun str_nat :: "nat \<Rightarrow> string" where
  "str_nat n = (if n < 10 then [digit_char n] else str_nat (n div 10) @ [digit_char (n mod 10)])"

declare str_nat.simps [simp del]

subsection \<open>Rows\<close>

text \<open>
  A cell value is a string; \<open>PyNone\<close> is Python's \<open>None\<close>, which \<open>craft_prompt\<close>
  anticipates (an f-string prints it as the text \<open>None\<close>). A row is a dictionary from
  header names to values.
\<close>

datatype pyval = PyNone | PyStr string

type_synonym pose = "string \<rightharpoonup> pyval"

definition dict_get :: "('k \<rightharpoonup> 'v) \<Rightarrow> 'k \<Rightarrow> 'v \<Rightarrow> 'v" where
  "dict_get d k dflt = (case d k of None \<Rightarrow> dflt | Some v \<Rightarrow> v)"

fun fmt :: "pyval \<Rightarrow> string" where
  "fmt PyNone = ''None''"
| "fmt (PyStr s) = s"

fun truthy_val :: "pyval \<Rightarrow> bool" where
  "truthy_val PyNone = False"
| "truthy_val (PyStr s) = (s \<noteq> [])"

subsection \<open>Events and the exception monad\<close>

text \<open>A parsed JSON value (numbers are integers here).\<close>

datatype json =
    JNull
  | JBool bool
  | JInt int
  | JStr string
  | JArr "json list"
  | JObj "(string \<times> json) list"

datatype exn =
    SystemExit nat
  | EOFError
  | FileNotFoundError
  | CredentialsError
  | GoogleApiError
  | ConnectionError
  | MissingSchema
  | HTTPError nat
  | JSONDecodeError
  | KeyError
  | IndexError
  | TypeError
  | AttributeError
  | Base64Error

type_synonym bytes = "char list"

datatype event =
    LogInfo string
  | LogError string
  | LogErrorExc string exn
  | Print string
  | Sleep nat
  | HttpPost string string string
  | HttpGetStatus json
  | HttpGetUrl string
  | SheetGet string string
  | DriveCreate string bytes
  | DrivePermission string
  | SheetUpdate string string string

text \<open>
  \<open>LogErrorExc p e\<close> is \<open>logger.error(f"{p}{e}")\<close>; \<open>HttpPost url key prompt\<close> is a
  provider request with its bearer key and prompt; \<open>HttpGetStatus g\<close> is a request to the
  status endpoint of generation \<open>g\<close>; \<open>SheetUpdate sheet range formula\<close> is one cell write.
  A computation yields an exception or a value, and the events it caused, oldest first.
\<close>

type_synonym 'a io = "(exn + 'a) \<times> event list"

definition ret :: "'a \<Rightarrow> 'a io" where
  "ret x = (Inr x, [])"

definition raise :: "exn \<Rightarrow> 'a io" where
  "raise e = (Inl e, [])"

definition emit :: "event \<Rightarrow> unit io" where
  "emit ev = (Inr (), [ev])"

definition bind :: "'a io \<Rightarrow> ('a \<Rightarrow> 'b io) \<Rightarrow> 'b io" where
  "bind m f = (case m of
       (Inl e, t) \<Rightarrow> (Inl e, t)
     | (Inr x, t) \<Rightarrow> (case f x of (r, t') \<Rightarrow> (r, t @ t')))"

definition seq :: "unit io \<Rightarrow> 'b io \<Rightarrow> 'b io" where
  "seq m k = bind m (\<lambda>_. k)"

definition lift :: "exn + 'a \<Rightarrow> 'a io" where
  "lift r = (r, [])"

text \<open>\<open>try: m except Exception as e: h e\<close>; the handler itself does not raise here.\<close>

definition catch :: "'a io \<Rightarrow> (exn \<Rightarrow> 'a \<times> event list) \<Rightarrow> 'a \<times> event list" where
  "catch m h = (case m of
       (Inl e, t) \<Rightarrow> (case h e of (x, t') \<Rightarrow> (x, t @ t'))
     | (Inr x, t) \<Rightarrow> (x, t))"

subsection \<open>The prompt\<close>

definition assemble :: "pyval \<Rightarrow> pyval \<Rightarrow> pyval \<Rightarrow> pyval \<Rightarrow> string" where
  "assemble style pose bg_color theme =
     fmt style @ '' '' @ fmt pose @ '' yoga pose, '' @ fmt bg_color @ '' background. '' @ fmt theme"

definition clean_up :: "string \<Rightarrow> string" where
  "clean_up prompt = strip (py_replace ''  '' '' '' (py_replace ''None'' '''' prompt))"

definition craft_prompt :: "pose \<Rightarrow> string \<times> event list" where
  "craft_prompt pose_data =
     (let style = dict_get pose_data ''Image Style'' (PyStr '''');
          bg_color = dict_get pose_data ''Background Color'' (PyStr '''');
          theme = dict_get pose_data ''Theme Description'' (PyStr '''');
          pose = dict_get pose_data ''Content Title'' (PyStr '''');
          prompt = clean_up (assemble style pose bg_color theme)
      in (prompt, [LogInfo (''Generated prompt for '' @ fmt pose @ '': '' @ prompt)]))"

subsection \<open>JSON values and HTTP responses\<close>

text \<open>
  The operations below are the Python ones the providers apply to a parsed body
  (what \<open>response.json()\<close> returns), with the exception each raises on a value of
  the wrong shape.
\<close>

fun truthy :: "json \<Rightarrow> bool" where
  "truthy JNull = False"
| "truthy (JBool b) = b"
| "truthy (JInt n) = (n \<noteq> 0)"
| "truthy (JStr s) = (s \<noteq> [])"
| "truthy (JArr xs) = (xs \<noteq> [])"
| "truthy (JObj kvs) = (kvs \<noteq> [])"

text \<open>\<open>x.get(k)\<close>: only a dictionary has the method; a missing key gives \<open>None\<close>.\<close>

fun json_get :: "json \<Rightarrow> string \<Rightarrow> exn + json" where
  "json_get (JObj kvs) k = (case map_of kvs k of None \<Rightarrow> Inr JNull | Some v \<Rightarrow> Inr v)"
| "json_get _ k = Inl AttributeError"

text \<open>\<open>x[k]\<close> with a string key.\<close>

fun json_item :: "json \<Rightarrow> string \<Rightarrow> exn + json" where
  "json_item (JObj kvs) k = (case map_of kvs k of None \<Rightarrow> Inl KeyError | Some v \<Rightarrow> Inr v)"
| "json_item _ k = Inl TypeError"

text \<open>\<open>x[0]\<close>.\<close>

fun json_first :: "json \<Rightarrow> exn + json" where
  "json_first (JArr xs) = (case xs of [] \<Rightarrow> Inl IndexError | x # _ \<Rightarrow> Inr x)"
| "json_first (JStr s) = (case s of [] \<Rightarrow> Inl IndexError | c # _ \<Rightarrow> Inr (JStr [c]))"
| "json_first (JObj kvs) = Inl KeyError"
| "json_first _ = Inl TypeError"

text \<open>\<open>k in x\<close> with a string \<open>k\<close>.\<close>

fun json_contains :: "string \<Rightarrow> json \<Rightarrow> exn + bool" where
  "json_contains k (JObj kvs) = Inr (map_of kvs k \<noteq> None)"
| "json_contains k (JArr xs) = Inr (JStr k \<in> set xs)"
| "json_contains k (JStr s) = Inr (py_in k s)"
| "json_contains k _ = Inl TypeError"

fun json_len :: "json \<Rightarrow> exn + nat" where
  "json_len (JObj kvs) = Inr (length kvs)"
| "json_len (JArr xs) = Inr (length xs)"
| "json_len (JStr s) = Inr (length s)"
| "json_len _ = Inl TypeError"

text \<open>
  The outcome of one \<open>requests\<close> call: the call raises, or there is a response with a
  status code, a body that parses as JSON or does not, and the raw content.
\<close>

datatype http_result = Raised exn | Response nat "json option" bytes

datatype response = Resp (status_code: nat) (body: "json option") (content: bytes)

definition request :: "event \<Rightarrow> http_result \<Rightarrow> response io" where
  "request ev r = seq (emit ev)
     (case r of Raised e \<Rightarrow> raise e | Response code b c \<Rightarrow> ret (Resp code b c))"

definition raise_for_status :: "response \<Rightarrow> unit io" where
  "raise_for_status r =
     (if 400 \<le> status_code r \<and> status_code r < 600 then raise (HTTPError (status_code r)) else ret ())"

definition json_of :: "response \<Rightarrow> json io" where
  "json_of r = (case body r of None \<Rightarrow> raise JSONDecodeError | Some j \<Rightarrow> ret j)"

subsection \<open>The world\<close>

text \<open>
  Each outside call of a run is identified by the row being processed and its place in
  the loop body (and, for a status poll, the attempt number), so the answers of the
  outside are given per row. \<open>getenv\<close> is the process environment after
  \<open>load_dotenv()\<close>, \<open>b64decode\<close> is \<open>base64.b64decode\<close>.
\<close>

record drive_file =
  file_id :: string
  webContentLink :: "string option"

record row_world =
  provider_post :: http_result
  status_get :: "nat \<Rightarrow> http_result"
  image_get :: http_result
  drive_create :: "exn + drive_file"
  drive_permission :: "exn + unit"
  sheet_update :: "exn + unit"

record world =
  getenv :: "string \<Rightarrow> string option"
  b64decode :: "json \<Rightarrow> exn + bytes"
  stdin_line :: "exn + string"
  service_account_file_exists :: bool
  load_credentials :: "exn + unit"
  sheet_values :: "exn + string list list option"
  row :: "nat \<Rightarrow> row_world"

subsection \<open>The three providers\<close>

definition generate_image_openai :: "world \<Rightarrow> row_world \<Rightarrow> string \<Rightarrow> bytes option \<times> event list" where
  "generate_image_openai w rw prompt =
     (case getenv w ''OPENAI_API_KEY'' of
        None \<Rightarrow> (None, [LogError ''OpenAI API key not found in environment variables''])
      | Some api_key \<Rightarrow>
          if api_key = [] then (None, [LogError ''OpenAI API key not found in environment variables''])
          else catch
            (bind (request (HttpPost ''https://api.openai.com/v1/images/generations'' api_key prompt)
                     (provider_post rw)) (\<lambda>response.
             seq (raise_for_status response)
            (bind (json_of response) (\<lambda>result.
             bind (lift (json_item result ''data'')) (\<lambda>d.
             bind (lift (json_first d)) (\<lambda>d0.
             bind (lift (json_item d0 ''b64_json'')) (\<lambda>image_data.
             bind (lift (b64decode w image_data)) (\<lambda>decoded.
             ret (Some decoded)))))))))
            (\<lambda>e. (None, [LogErrorExc ''Error generating image with OpenAI: '' e])))"

text \<open>
  The polling loop of the second provider, \<open>for attempt in range(max_attempts)\<close>, over
  the list of attempt numbers. \<open>Some c\<close> is \<open>return img_response.content\<close>; \<open>None\<close>
  is leaving the loop, by \<open>break\<close> or because the attempts are used up.
\<close>

fun poll_loop :: "row_world \<Rightarrow> json \<Rightarrow> nat list \<Rightarrow> bytes option io" where
  "poll_loop rw generation_id [] = ret None"
| "poll_loop rw generation_id (attempt # rest) =
     seq (emit (Sleep 2))
    (bind (request (HttpGetStatus generation_id) (status_get rw attempt)) (\<lambda>status_response.
     seq (raise_for_status status_response)
    (bind (json_of status_response) (\<lambda>status_data.
     bind (lift (json_get status_data ''state'')) (\<lambda>state.
     if state = JStr ''completed'' then
       bind (lift (json_get status_data ''image_url'')) (\<lambda>image_url.
         if truthy image_url then
           bind (case image_url of
                   JStr u \<Rightarrow> request (HttpGetUrl u) (image_get rw)
                 | _ \<Rightarrow> raise MissingSchema) (\<lambda>img_response.
           if status_code img_response = 200 then ret (Some (content img_response))
           else ret None)
         else ret None)
     else poll_loop rw generation_id rest)))))"

definition max_attempts :: nat where
  "max_attempts = 30"

definition generate_image_ideogram :: "world \<Rightarrow> row_world \<Rightarrow> string \<Rightarrow> bytes option \<times> event list" where
  "generate_image_ideogram w rw prompt =
     (case getenv w ''IDEOGRAM_API_KEY'' of
        None \<Rightarrow> (None, [LogError ''Ideogram API key not found in environment variables''])
      | Some api_key \<Rightarrow>
          if api_key = [] then (None, [LogError ''Ideogram API key not found in environment variables''])
          else catch
            (bind (request (HttpPost ''https://api.ideogram.ai/api/v1/generation'' api_key prompt)
                     (provider_post rw)) (\<lambda>response.
             seq (raise_for_status response)
            (bind (json_of response) (\<lambda>result.
             bind (lift (json_get result ''generation_id'')) (\<lambda>generation_id.
             if \<not> truthy generation_id then
               seq (emit (LogError ''No generation ID returned from Ideogram API'')) (ret None)
             else
               bind (poll_loop rw generation_id [0..<max_attempts]) (\<lambda>r.
               case r of
                 Some c \<Rightarrow> ret (Some c)
               | None \<Rightarrow> seq (emit (LogError ''Image generation timed out or failed'')) (ret None)))))))
            (\<lambda>e. (None, [LogErrorExc ''Error generating image with Ideogram: '' e])))"

definition generate_image_stability :: "world \<Rightarrow> row_world \<Rightarrow> string \<Rightarrow> bytes option \<times> event list" where
  "generate_image_stability w rw prompt =
     (case getenv w ''STABILITY_API_KEY'' of
        None \<Rightarrow> (None, [LogError ''Stability AI API key not found in environment variables''])
      | Some api_key \<Rightarrow>
          if api_key = [] then (None, [LogError ''Stability AI API key not found in environment variables''])
          else catch
            (bind (request (HttpPost
                     ''https://api.stability.ai/v1/generation/stable-diffusion-xl-1024-v1-0/text-to-image''
                     api_key prompt) (provider_post rw)) (\<lambda>response.
             seq (raise_for_status response)
            (bind (json_of response) (\<lambda>result.
             bind (lift (json_contains ''artifacts'' result)) (\<lambda>has.
             bind (if has then bind (lift (json_item result ''artifacts'')) (\<lambda>a.
                               bind (lift (json_len a)) (\<lambda>n. ret (n > 0)))
                   else ret False) (\<lambda>nonempty.
             if nonempty then
               bind (lift (json_item result ''artifacts'')) (\<lambda>a.
               bind (lift (json_first a)) (\<lambda>a0.
               bind (lift (json_item a0 ''base64'')) (\<lambda>image_data.
               bind (lift (b64decode w image_data)) (\<lambda>decoded.
               ret (Some decoded)))))
             else
               seq (emit (LogError ''No image artifacts returned from Stability API'')) (ret None)))))))
            (\<lambda>e. (None, [LogErrorExc ''Error generating image with Stability AI: '' e])))"

text \<open>The dispatch on the provider name: a dictionary of the three functions.\<close>

definition api_functions :: "string \<rightharpoonup> (world \<Rightarrow> row_world \<Rightarrow> string \<Rightarrow> bytes option \<times> event list)" where
  "api_functions = [''openai'' \<mapsto> generate_image_openai,
                    ''ideogram'' \<mapsto> generate_image_ideogram,
                    ''stability'' \<mapsto> generate_image_stability]"

definition generate_image :: "world \<Rightarrow> row_world \<Rightarrow> string \<Rightarrow> string \<Rightarrow> bytes option \<times> event list" where
  "generate_image w rw prompt api =
     (case api_functions api of
        None \<Rightarrow> (None, [LogError (''Unsupported API: '' @ api)])
      | Some f \<Rightarrow> f w rw prompt)"

subsection \<open>The sheet and the file store\<close>

definition authenticate_google :: "world \<Rightarrow> unit io" where
  "authenticate_google w =
     (if \<not> service_account_file_exists w then
        seq (emit (LogError ''Service account file service_account.json not found.''))
            (raise FileNotFoundError)
      else case load_credentials w of
        Inr creds \<Rightarrow> seq (emit (LogInfo ''Successfully authenticated using service account'')) (ret creds)
      | Inl e \<Rightarrow> seq (emit (LogErrorExc ''Error authenticating with service account: '' e)) (raise e))"

text \<open>\<open>row + [''] * (len(headers) - len(row))\<close>: a negative count gives the empty list.\<close>

definition row_extended :: "string list \<Rightarrow> string list \<Rightarrow> string list" where
  "row_extended headers r = r @ replicate (length headers - length r) ''''"

text \<open>\<open>dict(zip(headers, row_extended))\<close>: \<open>zip\<close> stops at the shorter list, and a later
  pair overrides an earlier one with the same key.\<close>

definition dict_zip :: "string list \<Rightarrow> string list \<Rightarrow> pose" where
  "dict_zip ks vs = fold (\<lambda>(k, v) d. d(k \<mapsto> PyStr v)) (zip ks vs) Map.empty"

definition get_sheet_data :: "world \<Rightarrow> string \<Rightarrow> pose list io" where
  "get_sheet_data w sheet_id =
     bind (seq (emit (SheetGet sheet_id ''Sheet1!A1:E'')) (lift (sheet_values w))) (\<lambda>result.
     let vals = (case result of None \<Rightarrow> [] | Some vs \<Rightarrow> vs) in
     case vals of
       [] \<Rightarrow> seq (emit (LogError ''No data found in sheet'')) (ret [])
     | headers # rest \<Rightarrow> ret (map (\<lambda>r. dict_zip headers (row_extended headers r)) rest))"

definition upload_image_to_drive :: "row_world \<Rightarrow> bytes \<Rightarrow> string \<Rightarrow> string io" where
  "upload_image_to_drive rw image_data filename =
     bind (seq (emit (DriveCreate filename image_data)) (lift (drive_create rw))) (\<lambda>file.
     seq (seq (emit (DrivePermission (file_id file))) (lift (drive_permission rw)))
     (let download_link = (case webContentLink file of None \<Rightarrow> '''' | Some l \<Rightarrow> l);
          download_link = py_replace ''&export=download'' '''' download_link
      in seq (emit (Print (''IF STATEMENT '' @ download_link)))
        (seq (emit (LogInfo (''Created image URL: '' @ download_link)))
             (ret download_link))))"

definition image_formula :: "string \<Rightarrow> string" where
  "image_formula image_url = ''=IMAGE('' @ [CHR 0x22] @ image_url @ [CHR 0x22] @ '', 3)''"

definition update_sheet_with_image :: "row_world \<Rightarrow> string \<Rightarrow> nat \<Rightarrow> string \<Rightarrow> unit io" where
  "update_sheet_with_image rw sheet_id r image_url =
     (let formula = image_formula image_url;
          range_name = ''Sheet1!E'' @ str_nat (r + 1)
      in seq (seq (emit (SheetUpdate sheet_id range_name formula)) (lift (sheet_update rw)))
             (emit (LogInfo (''Updated cell '' @ range_name @ '' with image''))))"

subsection \<open>The run\<close>

text \<open>
  The command line, as far as the script declares it: an optional sheet id, and a
  provider name that defaults to \<open>ideogram\<close> and must be one of the three
  \<open>choices\<close>; the parser leaves with exit status 2 on any other name.
\<close>

definition api_choices :: "string list" where
  "api_choices = [''openai'', ''ideogram'', ''stability'']"

definition parse_arguments :: "string option \<Rightarrow> string option \<Rightarrow> (string option \<times> string) io" where
  "parse_arguments sheet_arg api_arg =
     (case api_arg of
        None \<Rightarrow> ret (sheet_arg, ''ideogram'')
      | Some a \<Rightarrow> if a \<in> set api_choices then ret (sheet_arg, a) else raise (SystemExit 2))"

definition total :: "'a \<times> event list \<Rightarrow> 'a io" where
  "total m = (Inr (fst m), snd m)"

text \<open>The body of the loop over \<open>enumerate(yoga_poses)\<close>, for the row at index \<open>i\<close> of \<open>n\<close>.\<close>

definition process_pose :: "world \<Rightarrow> string \<Rightarrow> string \<Rightarrow> nat \<Rightarrow> nat \<Rightarrow> pose \<Rightarrow> unit io" where
  "process_pose w sheet_id api n i pose_data =
     (let pose_name = dict_get pose_data ''Content Title'' (PyStr '''') in
      if \<not> truthy_val pose_name then ret ()
      else
        seq (emit (LogInfo (''Processing pose '' @ str_nat (i + 1) @ ''/'' @ str_nat n @ '': '' @ fmt pose_name)))
       (bind (total (craft_prompt pose_data)) (\<lambda>prompt.
        seq (emit (LogInfo (''Generating image for '' @ fmt pose_name @ ''...'')))
       (bind (total (generate_image w (row w i) prompt api)) (\<lambda>image_data.
        case image_data of
          None \<Rightarrow> emit (LogError (''Failed to generate image for '' @ fmt pose_name))
        | Some data \<Rightarrow>
            if data = [] then emit (LogError (''Failed to generate image for '' @ fmt pose_name))
            else
              let filename = ''yoga_'' @ py_replace '' '' ''_'' (lower (fmt pose_name)) @ ''.png'' in
              bind (upload_image_to_drive (row w i) data filename) (\<lambda>image_url.
              seq (update_sheet_with_image (row w i) sheet_id (i + 1) image_url)
                  (emit (LogInfo (''Successfully processed '' @ fmt pose_name)))))))))"

fun process_rows :: "world \<Rightarrow> string \<Rightarrow> string \<Rightarrow> nat \<Rightarrow> nat \<Rightarrow> pose list \<Rightarrow> unit io" where
  "process_rows w sheet_id api n i [] = ret ()"
| "process_rows w sheet_id api n i (pose_data # rest) =
     seq (process_pose w sheet_id api n i pose_data) (process_rows w sheet_id api n (Suc i) rest)"

definition main :: "world \<Rightarrow> string option \<Rightarrow> string option \<Rightarrow> unit io" where
  "main w sheet_arg api_arg =
     bind (parse_arguments sheet_arg api_arg) (\<lambda>(sheet_opt, api).
     bind (case sheet_opt of
             None \<Rightarrow> seq (emit (Print ''Enter Google Sheet ID: '')) (lift (stdin_line w))
           | Some s \<Rightarrow> if s = [] then seq (emit (Print ''Enter Google Sheet ID: '')) (lift (stdin_line w))
                       else ret s) (\<lambda>sheet_id.
     seq (emit (Print (''Using '' @ upper api @ '' API for image generation'')))
    (bind (authenticate_google w) (\<lambda>credentials.
     bind (get_sheet_data w sheet_id) (\<lambda>yoga_poses.
     seq (emit (LogInfo (''Retrieved '' @ str_nat (length yoga_poses) @ '' yoga poses from sheet'')))
    (seq (process_rows w sheet_id api (length yoga_poses) 0 yoga_poses)
         (emit (LogInfo ''Process completed!''))))))))"

subsection \<open>Notions used in the statements\<close>

text \<open>The text that \<open>craft_prompt\<close> assembles for a row, before it is cleaned up.\<close>

definition phrase :: "pose \<Rightarrow> string" where
  "phrase pose_data =
     assemble (dict_get pose_data ''Image Style'' (PyStr ''''))
              (dict_get pose_data ''Content Title'' (PyStr ''''))
              (dict_get pose_data ''Background Color'' (PyStr ''''))
              (dict_get pose_data ''Theme Description'' (PyStr ''''))"

definition title :: "pose \<Rightarrow> pyval" where
  "title pose_data = dict_get pose_data ''Content Title'' (PyStr '''')"

text \<open>
  The generation identifier of an accepted submission: the request returned, its status
  is no error, its body is a JSON object and the identifier in it is truthy.
\<close>

fun submitted :: "http_result \<Rightarrow> json option" where
  "submitted (Response code (Some (JObj kvs)) c) =
     (if 400 \<le> code \<and> code < 600 then None
      else case map_of kvs ''generation_id'' of
             None \<Rightarrow> None
           | Some g \<Rightarrow> if truthy g then Some g else None)"
| "submitted _ = None"

text \<open>
  The status that a poll reports: the request returned, its status code is no error and
  its body is a JSON object; the status is the value of \<open>state\<close> (\<open>JNull\<close> when the
  object has none).
\<close>

fun poll_status :: "http_result \<Rightarrow> json option" where
  "poll_status (Response code (Some (JObj kvs)) c) =
     (if 400 \<le> code \<and> code < 600 then None
      else Some (case map_of kvs ''state'' of None \<Rightarrow> JNull | Some v \<Rightarrow> v))"
| "poll_status _ = None"

text \<open>The image address that a poll delivers, when it is a non-empty string.\<close>

fun poll_image_url :: "http_result \<Rightarrow> string option" where
  "poll_image_url (Response code (Some (JObj kvs)) c) =
     (case map_of kvs ''image_url'' of
        Some (JStr u) \<Rightarrow> if u = [] then None else Some u
      | _ \<Rightarrow> None)"
| "poll_image_url _ = None"

text \<open>Counting in a trace: status polls, time slept, and the kinds of outside effects.\<close>

fun is_poll :: "event \<Rightarrow> bool" where
  "is_poll (HttpGetStatus g) = True"
| "is_poll _ = False"

fun slept :: "event \<Rightarrow> nat" where
  "slept (Sleep n) = n"
| "slept _ = 0"

definition polls :: "event list \<Rightarrow> nat" where
  "polls t = length (filter is_poll t)"

definition waited :: "event list \<Rightarrow> nat" where
  "waited t = sum_list (map slept t)"

fun is_prompt_sent :: "event \<Rightarrow> bool" where
  "is_prompt_sent (HttpPost url key prompt) = True"
| "is_prompt_sent _ = False"

fun is_upload :: "event \<Rightarrow> bool" where
  "is_upload (DriveCreate filename image_data) = True"
| "is_upload _ = False"

fun is_sheet_write :: "event \<Rightarrow> bool" where
  "is_sheet_write (SheetUpdate sheet cell formula) = True"
| "is_sheet_write _ = False"

fun is_log :: "event \<Rightarrow> bool" where
  "is_log (LogInfo m) = True"
| "is_log (LogError m) = True"
| "is_log (LogErrorExc m e) = True"
| "is_log _ = False"

definition titled :: "pose \<Rightarrow> bool" where
  "titled pose_data = truthy_val (title pose_data)"

text \<open>Reading a decimal numeral back.\<close>

definition digit_value :: "char \<Rightarrow> nat" where
  "digit_value c = of_char c - 48"

definition decimal_value :: "string \<Rightarrow> nat" where
  "decimal_value s = foldl (\<lambda>acc c. 10 * acc + digit_value c) 0 s"

text \<open>All events of a computation satisfy \<open>P\<close>.\<close>

definition only :: "(event \<Rightarrow> bool) \<Rightarrow> 'a \<times> event list \<Rightarrow> bool" where
  "only P m = (\<forall>e \<in> set (snd m). P e)"

text \<open>The events a provider call can cause: requests, sleeps and error logs.\<close>

fun is_provider_event :: "event \<Rightarrow> bool" where
  "is_provider_event (HttpPost url key prompt) = True"
| "is_provider_event (HttpGetStatus g) = True"
| "is_provider_event (HttpGetUrl u) = True"
| "is_provider_event (Sleep n) = True"
| "is_provider_event (LogError m) = True"
| "is_provider_event (LogErrorExc m e) = True"
| "is_provider_event _ = False"

text \<open>The branch of the loop body that follows a generated image: upload, then cell write.\<close>

definition store_and_write :: "row_world \<Rightarrow> string \<Rightarrow> nat \<Rightarrow> string \<Rightarrow> bytes \<Rightarrow> unit io" where
  "store_and_write rw sheet_id i pose_name image_data =
     bind (upload_image_to_drive rw image_data
             (''yoga_'' @ py_replace '' '' ''_'' (lower pose_name) @ ''.png'')) (\<lambda>image_url.
     seq (update_sheet_with_image rw sheet_id (i + 1) image_url)
         (emit (LogInfo (''Successfully processed '' @ pose_name))))"

text \<open>The credential of the selected provider is absent or empty.\<close>

definition credential_missing :: "world \<Rightarrow> string \<Rightarrow> bool" where
  "credential_missing w api =
     ((api = ''openai'' \<and> (getenv w ''OPENAI_API_KEY'' = None \<or> getenv w ''OPENAI_API_KEY'' = Some ''''))
      \<or> (api = ''ideogram'' \<and> (getenv w ''IDEOGRAM_API_KEY'' = None \<or> getenv w ''IDEOGRAM_API_KEY'' = Some ''''))
      \<or> (api = ''stability'' \<and> (getenv w ''STABILITY_API_KEY'' = None \<or> getenv w ''STABILITY_API_KEY'' = Some '''')))"


subsection \<open>Sample worlds\<close>

text \<open>
  Concrete answers of the outside, used to evaluate the run: a provider that accepts the
  submission and reports \<open>processing\<close> 29 times before it reports \<open>completed\<close>; one
  that reports \<open>processing\<close> for ever; and one that reports \<open>failed\<close> for ever.
\<close>

definition sample_file :: drive_file where
  "sample_file = \<lparr> file_id = ''f1'',
       webContentLink = Some ''https://drive.google.com/uc?id=f1&export=download'' \<rparr>"

definition status_body :: "string \<Rightarrow> json" where
  "status_body s = JObj [(''state'', JStr s), (''image_url'', JStr ''https://img.example/1.png'')]"

definition slow_success :: row_world where
  "slow_success = \<lparr>
     provider_post = Response 200 (Some (JObj [(''generation_id'', JStr ''g1'')])) [],
     status_get = (\<lambda>a. if a < 29 then Response 200 (Some (JObj [(''state'', JStr ''processing'')])) []
                        else Response 200 (Some (status_body ''completed'')) []),
     image_get = Response 200 None ''PNG'',
     drive_create = Inr sample_file,
     drive_permission = Inr (),
     sheet_update = Inr () \<rparr>"

definition still_processing :: row_world where
  "still_processing = slow_success \<lparr>
     status_get := (\<lambda>a. Response 200 (Some (JObj [(''state'', JStr ''processing'')])) []) \<rparr>"

definition reported_failed :: row_world where
  "reported_failed = slow_success \<lparr>
     status_get := (\<lambda>a. Response 200 (Some (JObj [(''state'', JStr ''failed'')])) []) \<rparr>"

definition sample_world :: world where
  "sample_world = \<lparr>
     getenv = [''IDEOGRAM_API_KEY'' \<mapsto> ''k''],
     b64decode = (\<lambda>j. Inl Base64Error),
     stdin_line = Inl EOFError,
     service_account_file_exists = True,
     load_credentials = Inr (),
     sheet_values = Inr (Some [[''Content Title'', ''Image Style'', ''Background Color'', ''Theme Description''],
                               [''Warrior II'', ''flat'', ''white'', ''calm''],
                               [],
                               [''Tree'', ''line art'', ''blue'']]),
     row = (\<lambda>i. slow_success) \<rparr>"

text \<open>
  A provider that reports \<open>completed\<close> at the first poll; a file store that refuses the
  upload; and worlds built from them: one where every row succeeds, one where every
  upload is refused, and one without any provider credential.
\<close>

definition quick_success :: row_world where
  "quick_success = slow_success \<lparr>
     status_get := (\<lambda>a. Response 200 (Some (status_body ''completed'')) []) \<rparr>"

definition upload_refused :: row_world where
  "upload_refused = quick_success \<lparr> drive_create := Inl GoogleApiError \<rparr>"

definition quick_world :: world where
  "quick_world = sample_world \<lparr> row := (\<lambda>i. quick_success) \<rparr>"

definition refusing_world :: world where
  "refusing_world = sample_world \<lparr> row := (\<lambda>i. upload_refused) \<rparr>"

definition keyless_world :: world where
  "keyless_world = quick_world \<lparr> getenv := Map.empty \<rparr>"

text \<open>
  A sheet without values, and a sheet with two header columns whose first data row is
  too short and whose second data row is too long.
\<close>

definition blank_sheet :: world where
  "blank_sheet = sample_world \<lparr> sheet_values := Inr None \<rparr>"

definition ragged_sheet :: world where
  "ragged_sheet = sample_world \<lparr> sheet_values :=
     Inr (Some [[''Content Title'', ''Image Style''],
                [''Tree''],
                [''Crow'', ''flat'', ''white'', ''calm'']]) \<rparr>"

section \<open>Properties\<close>

subsection \<open>The exception monad\<close>

lemma bind_ret [simp]: "bind (ret x) f = f x"
  by (simp add: bind_def ret_def split: prod.splits)

lemma bind_raise [simp]: "bind (raise e) f = raise e"
  by (simp add: bind_def raise_def)

subsection \<open>Replacing substrings\<close>

lemma py_in_sublist: "py_in sub s = sublist sub s"
  by (induction s) (auto simp: sublist_Cons_right)


text \<open>A prefix that is longer than \<open>p\<close> reaches into what follows \<open>p\<close>.\<close>

lemma prefix_overhang:
  assumes "prefix old (p @ t)" "length p < length old"
  shows "t \<noteq> [] \<and> old ! length p = hd t"
proof -
  from assms obtain r where r: "p @ t = old @ r" by (auto simp: prefix_def)
  with assms(2) have "t \<noteq> []" by (metis append_Nil2 length_append not_add_less1)
  moreover have "old ! length p = (p @ t) ! length p" using r assms(2) by (simp add: nth_append)
  ultimately show ?thesis by (simp add: nth_append hd_conv_nth)
qed

lemma prefix_within:
  assumes "prefix old (p @ t)" "length old \<le> length p"
  shows "prefix old p"
  using assms by (metis prefix_length_prefix prefixI)

text \<open>
  When the first character of \<open>old\<close> does not occur again in \<open>old\<close>, no match can
  overlap an occurrence of \<open>old\<close>, so the scan replaces that occurrence and treats the
  text on either side of it separately.
\<close>

lemma py_replace_occurrence:
  assumes "old \<noteq> []" "hd old \<notin> set (tl old)"
  shows "py_replace old new (p @ old @ s) = py_replace old new p @ new @ py_replace old new s"
proof (induction "length p" arbitrary: p rule: less_induct)
  case less
  show ?case
  proof (cases p)
    case Nil
    with assms(1) show ?thesis by (cases old) auto
  next
    case (Cons c p')
    show ?thesis
    proof (cases "prefix old (p @ old @ s)")
      case True
      have "length old \<le> length p"
      proof (rule ccontr)
        assume "\<not> length old \<le> length p"
        then have lt: "length p < length old" by simp
        from prefix_overhang[OF True lt] have "old ! length p = hd old" using assms(1) by simp
        moreover have "0 < length p" using Cons by simp
        ultimately have "hd old \<in> set (tl old)"
          using lt by (metis Suc_pred length_tl less_diff_conv nth_mem nth_tl Suc_eq_plus1)
        with assms(2) show False by simp
      qed
      with True have pp: "prefix old p" by (rule prefix_within)
      then obtain p'' where p'': "p = old @ p''" by (auto simp: prefix_def)
      have "length p'' < length p" using p'' assms(1) by simp
      from less[OF this] show ?thesis using p'' assms(1) Cons True pp
        by (cases old) auto
    next
      case False
      then have "\<not> prefix old p" by (meson prefix_append)
      with False Cons assms(1) less[of p'] show ?thesis by simp
    qed
  qed
qed

text \<open>A character that does not occur in \<open>old\<close> separates the text in the same way.\<close>

lemma py_replace_split_char:
  assumes "old \<noteq> []" "c \<notin> set old"
  shows "py_replace old new (p @ c # s) = py_replace old new p @ c # py_replace old new s"
proof (induction "length p" arbitrary: p rule: less_induct)
  case less
  show ?case
  proof (cases p)
    case Nil
    with assms show ?thesis by (cases old) auto
  next
    case (Cons a p')
    show ?thesis
    proof (cases "prefix old (p @ c # s)")
      case True
      have "length old \<le> length p"
      proof (rule ccontr)
        assume "\<not> length old \<le> length p"
        then have lt: "length p < length old" by simp
        from prefix_overhang[OF True lt] have "old ! length p = c" by simp
        with lt assms(2) show False by (metis nth_mem)
      qed
      with True have pp: "prefix old p" by (rule prefix_within)
      then obtain p'' where p'': "p = old @ p''" by (auto simp: prefix_def)
      have "length p'' < length p" using p'' assms(1) by simp
      from less[OF this] show ?thesis using p'' assms(1) Cons True pp
        by (cases old) auto
    next
      case False
      then have "\<not> prefix old p" by (meson prefix_append)
      with False Cons assms(1) less[of p'] show ?thesis by simp
    qed
  qed
qed

subsection \<open>Cleaning the prompt\<close>

lemma craft_prompt_phrase: "fst (craft_prompt pd) = clean_up (phrase pd)"
  by (simp add: craft_prompt_def phrase_def Let_def)

lemma rstrip_prefix: "prefix (rstrip s) s"
proof -
  have "rev s = takeWhile isspace (rev s) @ dropWhile isspace (rev s)" by simp
  then have "s = rev (dropWhile isspace (rev s)) @ rev (takeWhile isspace (rev s))"
    by (metis rev_append rev_rev_ident)
  then show ?thesis unfolding rstrip_def by (metis prefixI)
qed

lemma strip_trimmed:
  "strip s = [] \<or> (\<not> isspace (hd (strip s)) \<and> \<not> isspace (last (strip s)))"
proof (cases "strip s = []")
  case True then show ?thesis by simp
next
  case False
  let ?t = "lstrip s"
  from False have ne: "rstrip ?t \<noteq> []" by (simp add: strip_def)
  then have d: "dropWhile isspace (rev ?t) \<noteq> []" by (simp add: rstrip_def)
  have "last (rstrip ?t) = hd (dropWhile isspace (rev ?t))"
    using d by (simp add: rstrip_def last_rev)
  then have l: "\<not> isspace (last (rstrip ?t))" using d by (simp add: hd_dropWhile)
  from rstrip_prefix[of ?t] obtain zs where zs: "?t = rstrip ?t @ zs"
    by (auto simp: prefix_def)
  have "hd (rstrip ?t @ zs) = hd (rstrip ?t)" using ne by (rule hd_append2)
  with zs have "hd (rstrip ?t) = hd ?t" by metis
  moreover from zs ne have "?t \<noteq> []" by (metis append_is_Nil_conv)
  ultimately have "\<not> isspace (hd (rstrip ?t))" by (simp add: lstrip_def hd_dropWhile)
  with l show ?thesis by (simp add: strip_def)
qed

lemma strip_sublist: "sublist (strip s) s"
proof -
  have "sublist (rstrip (lstrip s)) (lstrip s)" using rstrip_prefix by (rule prefix_imp_sublist)
  moreover have "sublist (lstrip s) s" unfolding lstrip_def
    by (rule suffix_imp_sublist) (rule suffix_dropWhile)
  ultimately show ?thesis unfolding strip_def by (rule sublist_order.order.trans)
qed

lemma py_in_strip: "py_in sub (strip s) \<Longrightarrow> py_in sub s"
  unfolding py_in_sublist using strip_sublist sublist_order.order.trans by blast

lemma pair_replace_hd:
  "t \<noteq> [] \<Longrightarrow> py_replace ''  '' '' '' t \<noteq> [] \<and> hd (py_replace ''  '' '' '' t) = hd t"
  by (cases t) auto

lemma pair_replace_no_pair:
  "\<not> py_in ''   '' t \<Longrightarrow> \<not> py_in ''  '' (py_replace ''  '' '' '' t)"
proof (induction "length t" arbitrary: t rule: less_induct)
  case less
  show ?case
  proof (cases t)
    case Nil then show ?thesis by simp
  next
    case (Cons c cs)
    show ?thesis
    proof (cases "prefix ''  '' t")
      case True
      then obtain cs' where t: "t = CHR '' '' # CHR '' '' # cs'" by (auto simp: prefix_def)
      from less.prems t have np: "\<not> prefix '' '' cs'" and nin: "\<not> py_in ''   '' cs'" by auto
      have "\<not> py_in ''  '' (py_replace ''  '' '' '' cs')" using less.hyps[of cs'] nin t by simp
      moreover have "\<not> prefix '' '' (py_replace ''  '' '' '' cs')"
        using np pair_replace_hd[of cs'] by (cases cs'; cases "py_replace ''  '' '' '' cs'") auto
      ultimately show ?thesis using t by simp
    next
      case False
      from less.prems Cons have nin: "\<not> py_in ''   '' cs" by auto
      have ih: "\<not> py_in ''  '' (py_replace ''  '' '' '' cs)" using less.hyps[of cs] nin Cons by simp
      have r: "py_replace ''  '' '' '' t = c # py_replace ''  '' '' '' cs"
        using False Cons by auto
      have "\<not> prefix ''  '' (c # py_replace ''  '' '' '' cs)"
        using False Cons pair_replace_hd[of cs] by (cases cs; cases "py_replace ''  '' '' '' cs") auto
      with ih show ?thesis unfolding r by simp
    qed
  qed
qed

lemma del_None_occurrence:
  "py_replace ''None'' '''' (p @ ''None'' @ s) = py_replace ''None'' '''' p @ py_replace ''None'' '''' s"
  using py_replace_occurrence[where old="''None''" and new="''''" and p=p and s=s] by simp

lemma del_None_space:
  "py_replace ''None'' '''' (p @ CHR '' '' # s) = py_replace ''None'' '''' p @ CHR '' '' # py_replace ''None'' '''' s"
  using py_replace_split_char[where old="''None''" and new="''''" and c="CHR '' ''" and p=p and s=s] by simp

lemma None_style: "clean_up (assemble PyNone pose bg theme) = clean_up (assemble (PyStr '''') pose bg theme)"
  by (simp add: clean_up_def assemble_def)

lemma None_bg: "clean_up (assemble style pose PyNone theme) = clean_up (assemble style pose (PyStr '''') theme)"
proof -
  let ?A = "fmt style @ '' '' @ fmt pose @ '' yoga pose,''" and ?B = "''background. '' @ fmt theme"
  have l: "assemble style pose PyNone theme = ?A @ CHR '' '' # (''None'' @ CHR '' '' # ?B)"
    by (simp add: assemble_def)
  have r: "assemble style pose (PyStr '''') theme = ?A @ CHR '' '' # (CHR '' '' # ?B)"
    by (simp add: assemble_def)
  have n: "py_replace ''None'' '''' (''None'' @ CHR '' '' # ?B) = py_replace ''None'' '''' (CHR '' '' # ?B)"
    by simp
  have "py_replace ''None'' '''' (?A @ CHR '' '' # (''None'' @ CHR '' '' # ?B))
      = py_replace ''None'' '''' ?A @ CHR '' '' # py_replace ''None'' '''' (''None'' @ CHR '' '' # ?B)"
    by (rule del_None_space)
  also have "\<dots> = py_replace ''None'' '''' ?A @ CHR '' '' # py_replace ''None'' '''' (CHR '' '' # ?B)"
    by (simp only: n)
  also have "\<dots> = py_replace ''None'' '''' (?A @ CHR '' '' # (CHR '' '' # ?B))"
    by (rule del_None_space[symmetric])
  finally have "py_replace ''None'' '''' (assemble style pose PyNone theme)
      = py_replace ''None'' '''' (assemble style pose (PyStr '''') theme)"
    by (simp only: l r)
  then show ?thesis by (simp only: clean_up_def)
qed

lemma None_theme: "clean_up (assemble style pose bg PyNone) = clean_up (assemble style pose bg (PyStr ''''))"
proof -
  let ?p = "fmt style @ '' '' @ fmt pose @ '' yoga pose, '' @ fmt bg @ '' background. ''"
  have l: "assemble style pose bg PyNone = ?p @ ''None'' @ []" by (simp add: assemble_def)
  have r: "assemble style pose bg (PyStr '''') = ?p" by (simp add: assemble_def)
  have "py_replace ''None'' '''' (?p @ ''None'' @ [])
      = py_replace ''None'' '''' ?p @ py_replace ''None'' '''' []"
    by (rule del_None_occurrence)
  also have "\<dots> = py_replace ''None'' '''' ?p" by simp
  finally have "py_replace ''None'' '''' (assemble style pose bg PyNone)
      = py_replace ''None'' '''' (assemble style pose bg (PyStr ''''))"
    by (simp only: l r)
  then show ?thesis by (simp only: clean_up_def)
qed

subsection \<open>The prompt builder\<close>

lemmas io_defs = bind_def seq_def emit_def lift_def ret_def raise_def total_def catch_def
lemmas strip_defs = strip_def lstrip_def rstrip_def isspace_def

text \<open>
  Claim C9. \<open>craft_prompt\<close> deletes every occurrence of the text \<open>None\<close> from the
  assembled phrase: wherever the phrase reads \<open>p @ ''None'' @ s\<close>, the prompt is computed
  from \<open>p\<close> and \<open>s\<close> alone (an occurrence of \<open>None\<close> cannot overlap another one, so
  every occurrence is met by the scan). In particular the four characters disappear from
  a title that contains them, such as \<open>Nonexistent\<close>.
\<close>

theorem craft_prompt_deletes_None:
  "(phrase pd = p @ ''None'' @ s \<longrightarrow>
      fst (craft_prompt pd) =
        strip (py_replace ''  '' '' '' (py_replace ''None'' '''' p @ py_replace ''None'' '''' s)))
   \<and> (title pd = PyStr (a @ ''None'' @ b) \<longrightarrow>
      fst (craft_prompt pd) =
        strip (py_replace ''  '' '' ''
          (py_replace ''None'' '''' (fmt (dict_get pd ''Image Style'' (PyStr '''')) @ '' '' @ a)
           @ py_replace ''None'' ''''
               (b @ '' yoga pose, '' @ fmt (dict_get pd ''Background Color'' (PyStr ''''))
                  @ '' background. '' @ fmt (dict_get pd ''Theme Description'' (PyStr ''''))))))"
proof (intro conjI impI)
  assume "phrase pd = p @ ''None'' @ s"
  then show "fst (craft_prompt pd) =
        strip (py_replace ''  '' '' '' (py_replace ''None'' '''' p @ py_replace ''None'' '''' s))"
    by (simp only: craft_prompt_phrase clean_up_def del_None_occurrence)
next
  let ?p = "fmt (dict_get pd ''Image Style'' (PyStr '''')) @ '' '' @ a"
  let ?s = "b @ '' yoga pose, '' @ fmt (dict_get pd ''Background Color'' (PyStr ''''))
                  @ '' background. '' @ fmt (dict_get pd ''Theme Description'' (PyStr ''''))"
  assume "title pd = PyStr (a @ ''None'' @ b)"
  then have "phrase pd = ?p @ ''None'' @ ?s"
    by (simp add: phrase_def title_def assemble_def)
  then show "fst (craft_prompt pd) =
        strip (py_replace ''  '' '' '' (py_replace ''None'' '''' ?p @ py_replace ''None'' '''' ?s))"
    by (simp only: craft_prompt_phrase clean_up_def del_None_occurrence)
qed

theorem craft_prompt_deletes_None_witness:
  "phrase [''Content Title'' \<mapsto> PyStr ''Nonexistent''] = '' '' @ ''None'' @ ''xistent yoga pose,  background. ''
   \<and> title [''Content Title'' \<mapsto> PyStr ''Nonexistent''] = PyStr ('''' @ ''None'' @ ''xistent'')
   \<and> fst (craft_prompt [''Content Title'' \<mapsto> PyStr ''Nonexistent'']) = ''xistent yoga pose, background.''"
proof -
  let ?pd = "[''Content Title'' \<mapsto> PyStr ''Nonexistent'']"
  have h: "phrase ?pd = '' '' @ ''None'' @ ''xistent yoga pose,  background. ''"
    by (simp add: phrase_def assemble_def dict_get_def)
  have t: "title ?pd = PyStr ('''' @ ''None'' @ ''xistent'')"
    by (simp add: title_def dict_get_def)
  from craft_prompt_deletes_None[of ?pd "'' ''" "''xistent yoga pose,  background. ''" "''''" "''xistent''"] h
  have "fst (craft_prompt ?pd) = strip (py_replace ''  '' '' '' (py_replace ''None'' '''' '' '' @ py_replace ''None'' '''' ''xistent yoga pose,  background. ''))"
    by blast
  then have "fst (craft_prompt ?pd) = ''xistent yoga pose, background.''"
    by (simp add: strip_defs)
  with h t show ?thesis by blast
qed

text \<open>
  Claim C6, as amended. \<open>craft_prompt\<close> is a total function of the row (the prompt is
  \<open>clean_up\<close> of the assembled phrase); the prompt has no leading or trailing
  whitespace; a style, background colour or theme that is \<open>None\<close> gives the same prompt
  as an empty one; and two adjacent spaces are replaced by one in a single pass from the
  left, so a text without a run of three spaces ends without repeated spaces. Longer runs
  of spaces are not collapsed to one space: see the counterexample below.
\<close>

theorem craft_prompt_cleaning:
  "fst (craft_prompt pd) = clean_up (phrase pd)
   \<and> (fst (craft_prompt pd) = [] \<or>
        (\<not> isspace (hd (fst (craft_prompt pd))) \<and> \<not> isspace (last (fst (craft_prompt pd)))))
   \<and> clean_up (assemble PyNone pose bg theme) = clean_up (assemble (PyStr '''') pose bg theme)
   \<and> clean_up (assemble style pose PyNone theme) = clean_up (assemble style pose (PyStr '''') theme)
   \<and> clean_up (assemble style pose bg PyNone) = clean_up (assemble style pose bg (PyStr ''''))
   \<and> (\<not> py_in ''   '' (py_replace ''None'' '''' (phrase pd)) \<longrightarrow>
        \<not> py_in ''  '' (fst (craft_prompt pd)))"
proof -
  have "\<not> py_in ''  '' (fst (craft_prompt pd))" if "\<not> py_in ''   '' (py_replace ''None'' '''' (phrase pd))"
  proof
    assume "py_in ''  '' (fst (craft_prompt pd))"
    then have "py_in ''  '' (py_replace ''  '' '' '' (py_replace ''None'' '''' (phrase pd)))"
      unfolding craft_prompt_phrase clean_up_def by (rule py_in_strip)
    with pair_replace_no_pair[OF that] show False by simp
  qed
  moreover have "fst (craft_prompt pd) = [] \<or>
        (\<not> isspace (hd (fst (craft_prompt pd))) \<and> \<not> isspace (last (fst (craft_prompt pd))))"
    unfolding craft_prompt_phrase clean_up_def by (rule strip_trimmed)
  ultimately show ?thesis
    using craft_prompt_phrase None_style None_bg None_theme by blast
qed

theorem craft_prompt_cleaning_witness:
  "\<not> py_in ''   '' (py_replace ''None'' '''' (phrase [''Content Title'' \<mapsto> PyStr ''Tree'', ''Background Color'' \<mapsto> PyNone]))
   \<and> \<not> py_in ''  '' (fst (craft_prompt [''Content Title'' \<mapsto> PyStr ''Tree'', ''Background Color'' \<mapsto> PyNone]))
   \<and> fst (craft_prompt [''Content Title'' \<mapsto> PyStr ''Tree'', ''Background Color'' \<mapsto> PyNone]) = ''Tree yoga pose, background.''"
proof -
  let ?pd = "[''Content Title'' \<mapsto> PyStr ''Tree'', ''Background Color'' \<mapsto> PyNone]"
  have h: "\<not> py_in ''   '' (py_replace ''None'' '''' (phrase ?pd))"
    by (simp add: phrase_def assemble_def dict_get_def)
  from craft_prompt_cleaning[of ?pd] h have "\<not> py_in ''  '' (fst (craft_prompt ?pd))" by blast
  moreover have "fst (craft_prompt ?pd) = ''Tree yoga pose, background.''"
    by (simp add: craft_prompt_def Let_def clean_up_def assemble_def dict_get_def strip_defs)
  ultimately show ?thesis using h by blast
qed

text \<open>
  Claim C6 as stated fails: a theme with three spaces in a row keeps two of them.
\<close>

theorem craft_prompt_triple_space_counterexample:
  "fst (craft_prompt [''Content Title'' \<mapsto> PyStr ''Tree'', ''Theme Description'' \<mapsto> PyStr ''a   b''])
     = ''Tree yoga pose, background. a  b''
   \<and> py_in ''  '' (fst (craft_prompt [''Content Title'' \<mapsto> PyStr ''Tree'', ''Theme Description'' \<mapsto> PyStr ''a   b'']))"
  by (simp add: craft_prompt_def Let_def clean_up_def assemble_def dict_get_def strip_defs)

subsection \<open>The link returned by the upload\<close>








subsection \<open>The polling provider\<close>

lemma request_Response: "request ev (Response code b c) = (Inr (Resp code b c), [ev])"
  by (simp add: request_def io_defs)

lemma request_Raised: "request ev (Raised e) = (Inl e, [ev])"
  by (simp add: request_def io_defs)

lemma raise_for_status_ok:
  "\<not> (400 \<le> code \<and> code < 600) \<Longrightarrow> raise_for_status (Resp code b c) = (Inr (), [])"
  by (auto simp: raise_for_status_def io_defs)

lemma poll_status_cases:
  assumes "poll_status r = Some st"
  obtains code kvs c where "r = Response code (Some (JObj kvs)) c" "\<not> (400 \<le> code \<and> code < 600)"
    "st = (case map_of kvs ''state'' of None \<Rightarrow> JNull | Some v \<Rightarrow> v)"
  using assms by (cases r rule: poll_status.cases) (auto split: if_splits)

lemma submitted_cases:
  assumes "submitted r = Some g"
  obtains code kvs c where "r = Response code (Some (JObj kvs)) c" "\<not> (400 \<le> code \<and> code < 600)"
    "map_of kvs ''generation_id'' = Some g" "truthy g"
  using assms by (cases r rule: submitted.cases) (auto split: if_splits option.splits)

lemma poll_loop_pending:
  assumes "poll_status (status_get rw a) = Some st" "st \<noteq> JStr ''completed''"
  shows "poll_loop rw g (a # rest) =
     (fst (poll_loop rw g rest), Sleep 2 # HttpGetStatus g # snd (poll_loop rw g rest))"
proof -
  from assms(1) obtain code kvs c where r: "status_get rw a = Response code (Some (JObj kvs)) c"
    and ok: "\<not> (400 \<le> code \<and> code < 600)"
    and st: "st = (case map_of kvs ''state'' of None \<Rightarrow> JNull | Some v \<Rightarrow> v)"
    by (rule poll_status_cases)
  show ?thesis using st assms(2)
    by (simp add: r request_Response raise_for_status_ok[OF ok] json_of_def io_defs split: option.splits prod.splits)
qed

lemma poll_loop_completed:
  assumes "poll_status (status_get rw a) = Some (JStr ''completed'')"
    and "poll_image_url (status_get rw a) = Some u"
    and "image_get rw = Response 200 b img"
  shows "poll_loop rw g (a # rest) = (Inr (Some img), [Sleep 2, HttpGetStatus g, HttpGetUrl u])"
proof -
  from assms(1) obtain code kvs c where r: "status_get rw a = Response code (Some (JObj kvs)) c"
    and ok: "\<not> (400 \<le> code \<and> code < 600)"
    and st: "JStr ''completed'' = (case map_of kvs ''state'' of None \<Rightarrow> JNull | Some v \<Rightarrow> v)"
    by (rule poll_status_cases)
  from assms(2) r have u: "map_of kvs ''image_url'' = Some (JStr u)" "u \<noteq> []"
    by (auto split: option.splits json.splits if_splits)
  from st have s: "map_of kvs ''state'' = Some (JStr ''completed'')"
    by (auto split: option.splits)
  show ?thesis using s u assms(3)
    by (simp add: r request_Response raise_for_status_ok[OF ok] json_of_def io_defs)
qed

lemma poll_loop_first:
  "\<exists>t. snd (poll_loop rw g (a # rest)) = Sleep 2 # HttpGetStatus g # t"
  by (cases "status_get rw a") (simp_all add: request_Response request_Raised io_defs split: prod.splits sum.splits)

lemma poll_loop_pending_run:
  assumes "\<forall>a \<in> set pre. \<exists>st. poll_status (status_get rw a) = Some st \<and> st \<noteq> JStr ''completed''"
  shows "poll_loop rw g (pre @ rest) =
     (fst (poll_loop rw g rest),
      concat (replicate (length pre) [Sleep 2, HttpGetStatus g]) @ snd (poll_loop rw g rest))"
  using assms
proof (induction pre)
  case Nil
  then show ?case by simp
next
  case (Cons a pre)
  then obtain st where "poll_status (status_get rw a) = Some st" "st \<noteq> JStr ''completed''"
    by auto
  from poll_loop_pending[OF this] Cons show ?case by simp
qed

lemma ideogram_submitted:
  assumes "getenv w ''IDEOGRAM_API_KEY'' = Some key" "key \<noteq> []"
    and "submitted (provider_post rw) = Some g"
  shows "generate_image_ideogram w rw prompt =
     (case poll_loop rw g [0..<max_attempts] of
        (Inl e, t) \<Rightarrow> (None, HttpPost ''https://api.ideogram.ai/api/v1/generation'' key prompt # t
                           @ [LogErrorExc ''Error generating image with Ideogram: '' e])
      | (Inr (Some c), t) \<Rightarrow> (Some c, HttpPost ''https://api.ideogram.ai/api/v1/generation'' key prompt # t)
      | (Inr None, t) \<Rightarrow> (None, HttpPost ''https://api.ideogram.ai/api/v1/generation'' key prompt # t
                           @ [LogError ''Image generation timed out or failed'']))"
proof -
  from assms(3) obtain code kvs c where r: "provider_post rw = Response code (Some (JObj kvs)) c"
    and ok: "\<not> (400 \<le> code \<and> code < 600)"
    and g: "map_of kvs ''generation_id'' = Some g" "truthy g"
    by (rule submitted_cases)
  show ?thesis using assms(1,2) g
    by (simp add: generate_image_ideogram_def r request_Response raise_for_status_ok[OF ok] json_of_def io_defs
        split: prod.splits sum.splits option.splits)
qed

lemma attempts_split: "n < 30 \<Longrightarrow> [0..<max_attempts] = [0..<n] @ n # [Suc n..<30]"
  unfolding max_attempts_def
  by (metis less_imp_le_nat upt_add_eq_append upt_conv_Cons le_add_diff_inverse zero_le add_0)

lemma run_snoc:
  "concat (replicate n [a, b]) @ a # b # t = concat (replicate (Suc n) [a, b]) @ t"
  by (induction n) simp_all

lemma polls_run [simp]: "polls (concat (replicate n [Sleep 2, HttpGetStatus g])) = n"
  by (induction n) (simp_all add: polls_def)

lemma waited_run [simp]: "waited (concat (replicate n [Sleep 2, HttpGetStatus g])) = 2 * n"
  by (induction n) (simp_all add: waited_def)

lemma poll_loop_exhausted:
  assumes "\<forall>a<30. \<exists>st. poll_status (status_get rw a) = Some st \<and> st \<noteq> JStr ''completed''"
  shows "poll_loop rw g [0..<max_attempts] = (Inr None, concat (replicate 30 [Sleep 2, HttpGetStatus g]))"
proof -
  have "\<forall>a\<in>set [0..<max_attempts]. \<exists>st. poll_status (status_get rw a) = Some st \<and> st \<noteq> JStr ''completed''"
    using assms by (simp add: max_attempts_def)
  from poll_loop_pending_run[OF this, of g "[]"] show ?thesis
    by (simp add: max_attempts_def ret_def)
qed

text \<open>
  Claim C1. With the credential present and the submission accepted with generation
  identifier \<open>g\<close>: when the first 29 polls report \<open>processing\<close> and the 30th reports
  \<open>completed\<close> and delivers an image address whose download answers 200, the call
  returns the image after exactly 30 polls; when 30 polls in a row report a status other
  than \<open>completed\<close>, the call makes exactly 30 polls, sleeps 2 before each of them, and
  then fails on the time-out path: it logs \<open>Image generation timed out or failed\<close> and
  returns \<open>None\<close> (the script has no typed failures; this is its time-out outcome).
\<close>

theorem ideogram_thirty_polls:
  assumes "getenv w ''IDEOGRAM_API_KEY'' = Some key" and "key \<noteq> []"
    and "submitted (provider_post rw) = Some g"
  shows "((\<forall>a<29. poll_status (status_get rw a) = Some (JStr ''processing''))
          \<and> poll_status (status_get rw 29) = Some (JStr ''completed'')
          \<and> poll_image_url (status_get rw 29) = Some u
          \<and> image_get rw = Response 200 b img
        \<longrightarrow> generate_image_ideogram w rw prompt =
             (Some img, HttpPost ''https://api.ideogram.ai/api/v1/generation'' key prompt
                        # concat (replicate 30 [Sleep 2, HttpGetStatus g]) @ [HttpGetUrl u]))
       \<and> ((\<forall>a<30. \<exists>st. poll_status (status_get rw a) = Some st \<and> st \<noteq> JStr ''completed'')
        \<longrightarrow> generate_image_ideogram w rw prompt =
             (None, HttpPost ''https://api.ideogram.ai/api/v1/generation'' key prompt
                    # concat (replicate 30 [Sleep 2, HttpGetStatus g])
                    @ [LogError ''Image generation timed out or failed'']))"
proof (intro conjI impI)
  assume h: "(\<forall>a<29. poll_status (status_get rw a) = Some (JStr ''processing''))
          \<and> poll_status (status_get rw 29) = Some (JStr ''completed'')
          \<and> poll_image_url (status_get rw 29) = Some u
          \<and> image_get rw = Response 200 b img"
  then have "\<forall>a\<in>set [0..<29]. \<exists>st. poll_status (status_get rw a) = Some st \<and> st \<noteq> JStr ''completed''"
    by simp
  from poll_loop_pending_run[OF this, of g "29 # [Suc 29..<30]"] attempts_split[of 29]
  have "poll_loop rw g [0..<max_attempts] =
     (fst (poll_loop rw g (29 # [Suc 29..<30])),
      concat (replicate 29 [Sleep 2, HttpGetStatus g]) @ snd (poll_loop rw g (29 # [Suc 29..<30])))"
    by simp
  moreover have "poll_loop rw g (29 # [Suc 29..<30]) = (Inr (Some img), [Sleep 2, HttpGetStatus g, HttpGetUrl u])"
    using h by (intro poll_loop_completed) auto
  moreover have "concat (replicate 29 [Sleep 2, HttpGetStatus g]) @ [Sleep 2, HttpGetStatus g, HttpGetUrl u]
      = concat (replicate 30 [Sleep 2, HttpGetStatus g]) @ [HttpGetUrl u]"
  proof -
    have "(30::nat) = Suc 29" by simp
    then show ?thesis by (simp only: run_snoc)
  qed
  ultimately have "poll_loop rw g [0..<max_attempts] =
     (Inr (Some img), concat (replicate 30 [Sleep 2, HttpGetStatus g]) @ [HttpGetUrl u])"
    by simp
  then show "generate_image_ideogram w rw prompt =
             (Some img, HttpPost ''https://api.ideogram.ai/api/v1/generation'' key prompt
                        # concat (replicate 30 [Sleep 2, HttpGetStatus g]) @ [HttpGetUrl u])"
    by (simp add: ideogram_submitted[OF assms])
next
  assume "\<forall>a<30. \<exists>st. poll_status (status_get rw a) = Some st \<and> st \<noteq> JStr ''completed''"
  from poll_loop_exhausted[OF this]
  show "generate_image_ideogram w rw prompt =
             (None, HttpPost ''https://api.ideogram.ai/api/v1/generation'' key prompt
                    # concat (replicate 30 [Sleep 2, HttpGetStatus g])
                    @ [LogError ''Image generation timed out or failed''])"
    by (simp add: ideogram_submitted[OF assms])
qed

text \<open>
  Claim C8. A status other than \<open>completed\<close> never ends the polling: after \<open>n < 30\<close>
  polls that reported such a status (\<open>failed\<close> included) the trace goes on with another
  sleep and another poll; and when all 30 polls report such a status the call has polled
  30 times and slept 60 in total before it returns \<open>None\<close> on the time-out path.
\<close>

theorem ideogram_never_stops_early:
  assumes "getenv w ''IDEOGRAM_API_KEY'' = Some key" and "key \<noteq> []"
    and "submitted (provider_post rw) = Some g"
  shows "(n < 30 \<and> (\<forall>a<n. \<exists>st. poll_status (status_get rw a) = Some st \<and> st \<noteq> JStr ''completed'')
        \<longrightarrow> take (1 + 2 * (n + 1)) (snd (generate_image_ideogram w rw prompt)) =
             HttpPost ''https://api.ideogram.ai/api/v1/generation'' key prompt
               # concat (replicate (n + 1) [Sleep 2, HttpGetStatus g]))
       \<and> ((\<forall>a<30. \<exists>st. poll_status (status_get rw a) = Some st \<and> st \<noteq> JStr ''completed'')
        \<longrightarrow> fst (generate_image_ideogram w rw prompt) = None
            \<and> polls (snd (generate_image_ideogram w rw prompt)) = 30
            \<and> waited (snd (generate_image_ideogram w rw prompt)) = 60
            \<and> last (snd (generate_image_ideogram w rw prompt)) = LogError ''Image generation timed out or failed'')"
proof (intro conjI impI)
  assume h: "n < 30 \<and> (\<forall>a<n. \<exists>st. poll_status (status_get rw a) = Some st \<and> st \<noteq> JStr ''completed'')"
  then have "\<forall>a\<in>set [0..<n]. \<exists>st. poll_status (status_get rw a) = Some st \<and> st \<noteq> JStr ''completed''"
    by simp
  from poll_loop_pending_run[OF this, of g "n # [Suc n..<30]"] attempts_split[of n] h
  have run: "snd (poll_loop rw g [0..<max_attempts]) =
      concat (replicate n [Sleep 2, HttpGetStatus g]) @ snd (poll_loop rw g (n # [Suc n..<30]))"
    by simp
  obtain t where t: "snd (poll_loop rw g (n # [Suc n..<30])) = Sleep 2 # HttpGetStatus g # t"
    using poll_loop_first by blast
  have len: "length (concat (replicate k [Sleep 2, HttpGetStatus g])) = 2 * k" for k
    by (induction k) simp_all
  have "concat (replicate n [Sleep 2, HttpGetStatus g]) @ Sleep 2 # HttpGetStatus g # t
      = concat (replicate (n + 1) [Sleep 2, HttpGetStatus g]) @ t"
    by (simp only: run_snoc Suc_eq_plus1)
  with run t have run': "snd (poll_loop rw g [0..<max_attempts]) =
      concat (replicate (n + 1) [Sleep 2, HttpGetStatus g]) @ t" by simp
  have "\<exists>t'. snd (generate_image_ideogram w rw prompt) =
      (HttpPost ''https://api.ideogram.ai/api/v1/generation'' key prompt
         # concat (replicate (n + 1) [Sleep 2, HttpGetStatus g])) @ t'"
    using run' by (cases "poll_loop rw g [0..<max_attempts]")
      (auto simp: ideogram_submitted[OF assms] split: sum.splits option.splits)
  then obtain t' where "snd (generate_image_ideogram w rw prompt) =
      (HttpPost ''https://api.ideogram.ai/api/v1/generation'' key prompt
         # concat (replicate (n + 1) [Sleep 2, HttpGetStatus g])) @ t'" by blast
  then show "take (1 + 2 * (n + 1)) (snd (generate_image_ideogram w rw prompt)) =
             HttpPost ''https://api.ideogram.ai/api/v1/generation'' key prompt
               # concat (replicate (n + 1) [Sleep 2, HttpGetStatus g])"
    using len[of "n + 1"] by (simp del: replicate_Suc replicate.simps)
next
  assume "\<forall>a<30. \<exists>st. poll_status (status_get rw a) = Some st \<and> st \<noteq> JStr ''completed''"
  from poll_loop_exhausted[OF this]
  have r: "generate_image_ideogram w rw prompt =
             (None, HttpPost ''https://api.ideogram.ai/api/v1/generation'' key prompt
                    # concat (replicate 30 [Sleep 2, HttpGetStatus g])
                    @ [LogError ''Image generation timed out or failed''])"
    by (simp add: ideogram_submitted[OF assms])
  show "fst (generate_image_ideogram w rw prompt) = None" by (simp add: r)
  have "polls (snd (generate_image_ideogram w rw prompt))
      = polls (concat (replicate 30 [Sleep 2, HttpGetStatus g]))"
    unfolding r by (simp add: polls_def del: replicate_Suc replicate.simps)
  then show "polls (snd (generate_image_ideogram w rw prompt)) = 30" by (simp only: polls_run)
  have "waited (snd (generate_image_ideogram w rw prompt))
      = waited (concat (replicate 30 [Sleep 2, HttpGetStatus g]))"
    unfolding r by (simp add: waited_def del: replicate_Suc replicate.simps)
  then show "waited (snd (generate_image_ideogram w rw prompt)) = 60" by (simp only: waited_run)
  show "last (snd (generate_image_ideogram w rw prompt)) = LogError ''Image generation timed out or failed''"
    unfolding r by (simp del: replicate_Suc replicate.simps)
qed

text \<open>Evaluation on the sample worlds.\<close>

lemmas sample_defs = sample_world_def slow_success_def still_processing_def reported_failed_def
  status_body_def sample_file_def

theorem ideogram_thirty_polls_witness:
  "generate_image_ideogram sample_world slow_success ''tree'' =
     (Some ''PNG'', HttpPost ''https://api.ideogram.ai/api/v1/generation'' ''k'' ''tree''
                    # concat (replicate 30 [Sleep 2, HttpGetStatus (JStr ''g1'')])
                    @ [HttpGetUrl ''https://img.example/1.png''])
   \<and> generate_image_ideogram sample_world still_processing ''tree'' =
     (None, HttpPost ''https://api.ideogram.ai/api/v1/generation'' ''k'' ''tree''
            # concat (replicate 30 [Sleep 2, HttpGetStatus (JStr ''g1'')])
            @ [LogError ''Image generation timed out or failed''])"
proof -
  have k: "getenv sample_world ''IDEOGRAM_API_KEY'' = Some ''k''" "''k'' \<noteq> []"
    by (simp_all add: sample_defs)
  have s1: "submitted (provider_post slow_success) = Some (JStr ''g1'')"
    by (simp add: sample_defs)
  have s2: "submitted (provider_post still_processing) = Some (JStr ''g1'')"
    by (simp add: sample_defs)
  have a: "(\<forall>a<29. poll_status (status_get slow_success a) = Some (JStr ''processing''))
          \<and> poll_status (status_get slow_success 29) = Some (JStr ''completed'')
          \<and> poll_image_url (status_get slow_success 29) = Some ''https://img.example/1.png''
          \<and> image_get slow_success = Response 200 None ''PNG''"
    by (simp add: sample_defs)
  have b: "\<forall>a<30. \<exists>st. poll_status (status_get still_processing a) = Some st \<and> st \<noteq> JStr ''completed''"
    by (simp add: sample_defs)
  from ideogram_thirty_polls[OF k s1, of "''https://img.example/1.png''" None "''PNG''" "''tree''"] a
       ideogram_thirty_polls[OF k s2, of "''https://img.example/1.png''" None "''PNG''" "''tree''"] b
  show ?thesis by blast
qed

theorem ideogram_never_stops_early_witness:
  "take (1 + 2 * (5 + 1)) (snd (generate_image_ideogram sample_world reported_failed ''tree'')) =
       HttpPost ''https://api.ideogram.ai/api/v1/generation'' ''k'' ''tree''
         # concat (replicate (5 + 1) [Sleep 2, HttpGetStatus (JStr ''g1'')])
   \<and> fst (generate_image_ideogram sample_world reported_failed ''tree'') = None
   \<and> polls (snd (generate_image_ideogram sample_world reported_failed ''tree'')) = 30
   \<and> waited (snd (generate_image_ideogram sample_world reported_failed ''tree'')) = 60
   \<and> last (snd (generate_image_ideogram sample_world reported_failed ''tree''))
       = LogError ''Image generation timed out or failed''"
proof -
  have k: "getenv sample_world ''IDEOGRAM_API_KEY'' = Some ''k''" "''k'' \<noteq> []"
    by (simp_all add: sample_defs)
  have s: "submitted (provider_post reported_failed) = Some (JStr ''g1'')"
    by (simp add: sample_defs)
  have a: "\<forall>a<30. \<exists>st. poll_status (status_get reported_failed a) = Some st \<and> st \<noteq> JStr ''completed''"
    by (simp add: sample_defs)
  then have b: "(5::nat) < 30 \<and> (\<forall>a<5. \<exists>st. poll_status (status_get reported_failed a) = Some st \<and> st \<noteq> JStr ''completed'')"
    by simp
  from ideogram_never_stops_early[OF k s, of 5 "''tree''"] a b
  show ?thesis by blast
qed

subsection \<open>Events of the providers\<close>

lemma only_ret [intro!]: "only P (ret x)"
  by (simp add: only_def ret_def)

lemma only_raise [intro!]: "only P (raise e)"
  by (simp add: only_def raise_def)

lemma only_lift [intro!]: "only P (lift r)"
  by (simp add: only_def lift_def)

lemma only_emit [intro!]: "P ev \<Longrightarrow> only P (emit ev)"
  by (simp add: only_def emit_def)

lemma snd_bind: "snd (bind m f) = snd m @ (case fst m of Inl e \<Rightarrow> [] | Inr x \<Rightarrow> snd (f x))"
  by (cases m; cases "fst m") (auto simp: bind_def split: prod.splits)

lemma fst_bind: "fst (bind m f) = (case fst m of Inl e \<Rightarrow> Inl e | Inr x \<Rightarrow> fst (f x))"
  by (cases m; cases "fst m") (auto simp: bind_def split: prod.splits)

lemma snd_seq: "snd (seq m k) = snd m @ (case fst m of Inl e \<Rightarrow> [] | Inr x \<Rightarrow> snd k)"
  by (simp add: seq_def snd_bind)

lemma fst_seq: "fst (seq m k) = (case fst m of Inl e \<Rightarrow> Inl e | Inr x \<Rightarrow> fst k)"
  by (simp add: seq_def fst_bind)

lemma snd_catch: "snd (catch m h) = snd m @ (case fst m of Inl e \<Rightarrow> snd (h e) | Inr x \<Rightarrow> [])"
  by (cases m; cases "fst m") (auto simp: catch_def split: prod.splits)

lemma only_bind [intro!]: "only P m \<Longrightarrow> (\<And>x. only P (f x)) \<Longrightarrow> only P (bind m f)"
  unfolding only_def snd_bind by (auto split: sum.splits)

lemma only_seq [intro!]: "only P m \<Longrightarrow> only P k \<Longrightarrow> only P (seq m k)"
  by (simp add: seq_def only_bind)

lemma only_catch [intro!]: "only P m \<Longrightarrow> (\<And>e. only P (h e)) \<Longrightarrow> only P (catch m h)"
  unfolding only_def snd_catch by (auto split: sum.splits)

lemma only_total [intro!]: "only P m \<Longrightarrow> only P (total m)"
  by (simp add: only_def total_def)

lemma only_request [intro!]: "P ev \<Longrightarrow> only P (request ev r)"
  by (cases r) (auto simp: request_def)

lemma only_raise_for_status [intro!]: "only P (raise_for_status r)"
  by (auto simp: raise_for_status_def)

lemma only_json_of [intro!]: "only P (json_of r)"
  by (auto simp: json_of_def split: option.splits)

lemma only_pair [simp]: "only P (x, t) = (\<forall>e \<in> set t. P e)"
  by (simp add: only_def)

lemma only_if [intro!]: "(c \<Longrightarrow> only P a) \<Longrightarrow> (\<not> c \<Longrightarrow> only P b) \<Longrightarrow> only P (if c then a else b)"
  by simp

lemma only_poll_loop: "only is_provider_event (poll_loop rw g as)"
proof (induction as)
  case Nil
  show ?case by auto
next
  case (Cons a as)
  have img: "only is_provider_event
      (case image_url of JStr u \<Rightarrow> request (HttpGetUrl u) (image_get rw) | _ \<Rightarrow> raise MissingSchema)"
    for image_url by (cases image_url) auto
  show ?case unfolding poll_loop.simps
    by (intro only_seq only_bind only_emit only_request only_raise_for_status only_json_of only_lift
          only_if only_ret img Cons.IH) simp_all
qed

lemma only_openai: "only is_provider_event (generate_image_openai w rw prompt)"
  unfolding generate_image_openai_def
  by (auto split: option.splits)

lemma only_ideogram: "only is_provider_event (generate_image_ideogram w rw prompt)"
proof -
  have tail: "only is_provider_event
     (case r of Some c \<Rightarrow> ret (Some c)
      | None \<Rightarrow> seq (emit (LogError ''Image generation timed out or failed'')) (ret None))"
    for r :: "bytes option" by (cases r) auto
  show ?thesis unfolding generate_image_ideogram_def
    by (auto split: option.splits intro!: only_poll_loop tail)
qed

lemma only_stability: "only is_provider_event (generate_image_stability w rw prompt)"
  unfolding generate_image_stability_def
  by (auto split: option.splits)

lemma only_generate_image: "only is_provider_event (generate_image w rw prompt api)"
  unfolding generate_image_def api_functions_def
  using only_openai only_ideogram only_stability
  by (auto split: option.splits if_splits)

subsection \<open>The loop body and the loop\<close>

lemma store_and_write_eval:
  "store_and_write rw sid i name data =
     (let fn = ''yoga_'' @ py_replace '' '' ''_'' (lower name) @ ''.png'' in
      case drive_create rw of
        Inl e \<Rightarrow> (Inl e, [DriveCreate fn data])
      | Inr f \<Rightarrow>
         (case drive_permission rw of
            Inl e \<Rightarrow> (Inl e, [DriveCreate fn data, DrivePermission (file_id f)])
          | Inr u \<Rightarrow>
             (let link = py_replace ''&export=download'' ''''
                           (case webContentLink f of None \<Rightarrow> '''' | Some l \<Rightarrow> l);
                  cell = ''Sheet1!E'' @ str_nat (i + 2);
                  t = [DriveCreate fn data, DrivePermission (file_id f),
                       Print (''IF STATEMENT '' @ link), LogInfo (''Created image URL: '' @ link),
                       SheetUpdate sid cell (image_formula link)]
              in case sheet_update rw of
                   Inl e \<Rightarrow> (Inl e, t)
                 | Inr u \<Rightarrow> (Inr (), t @ [LogInfo (''Updated cell '' @ cell @ '' with image''),
                                         LogInfo (''Successfully processed '' @ name)]))))"
  by (simp add: store_and_write_def upload_image_to_drive_def update_sheet_with_image_def io_defs Let_def
      split: sum.splits)

lemma process_pose_untitled: "\<not> titled pd \<Longrightarrow> process_pose w sid api n i pd = (Inr (), [])"
  by (simp add: process_pose_def titled_def title_def ret_def Let_def)

lemma process_pose_alt:
  "process_pose w sid api n i pd =
     (if \<not> titled pd then ret ()
      else
        seq (emit (LogInfo (''Processing pose '' @ str_nat (i + 1) @ ''/'' @ str_nat n @ '': '' @ fmt (title pd))))
       (bind (total (craft_prompt pd)) (\<lambda>prompt.
        seq (emit (LogInfo (''Generating image for '' @ fmt (title pd) @ ''...'')))
       (bind (total (generate_image w (row w i) prompt api)) (\<lambda>image_data.
        case image_data of
          None \<Rightarrow> emit (LogError (''Failed to generate image for '' @ fmt (title pd)))
        | Some data \<Rightarrow>
            if data = [] then emit (LogError (''Failed to generate image for '' @ fmt (title pd)))
            else store_and_write (row w i) sid i (fmt (title pd)) data)))))"
  unfolding process_pose_def store_and_write_def titled_def title_def Let_def
  by (rule refl)

lemma process_pose_titled:
  assumes "titled pd"
  shows "process_pose w sid api n i pd =
     (let name = fmt (title pd);
          prompt = fst (craft_prompt pd);
          g = generate_image w (row w i) prompt api;
          t = [LogInfo (''Processing pose '' @ str_nat (i + 1) @ ''/'' @ str_nat n @ '': '' @ name),
               LogInfo (''Generated prompt for '' @ name @ '': '' @ prompt),
               LogInfo (''Generating image for '' @ name @ ''...'')] @ snd g
      in case fst g of
           None \<Rightarrow> (Inr (), t @ [LogError (''Failed to generate image for '' @ name)])
         | Some data \<Rightarrow>
             if data = [] then (Inr (), t @ [LogError (''Failed to generate image for '' @ name)])
             else (fst (store_and_write (row w i) sid i name data),
                   t @ snd (store_and_write (row w i) sid i name data)))"
proof -
  have c: "snd (craft_prompt pd) = [LogInfo (''Generated prompt for '' @ fmt (title pd) @ '': '' @ fst (craft_prompt pd))]"
    by (simp add: craft_prompt_def title_def Let_def)
  show ?thesis using assms
    by (cases "generate_image w (row w i) (fst (craft_prompt pd)) api")
       (simp add: process_pose_alt c io_defs Let_def case_prod_beta split: option.splits)
qed

lemma provider_event_kind: "is_provider_event e \<Longrightarrow> \<not> is_upload e \<and> \<not> is_sheet_write e"
  by (cases e) auto

lemma provider_no_upload: "only is_provider_event m \<Longrightarrow> filter is_upload (snd m) = []"
  by (auto simp: only_def filter_empty_conv dest: provider_event_kind)

lemma provider_no_sheet_write: "only is_provider_event m \<Longrightarrow> filter is_sheet_write (snd m) = []"
  by (auto simp: only_def filter_empty_conv dest: provider_event_kind)

lemma provider_no_SheetUpdate: "only is_provider_event m \<Longrightarrow> SheetUpdate s r f \<notin> set (snd m)"
  by (auto simp: only_def)

lemma store_uploads: "length (filter is_upload (snd (store_and_write rw sid i name data))) \<le> 1"
  by (simp add: store_and_write_eval Let_def split: sum.splits)

lemma store_sheet_writes: "length (filter is_sheet_write (snd (store_and_write rw sid i name data))) \<le> 1"
  by (simp add: store_and_write_eval Let_def split: sum.splits)

lemma store_SheetUpdate:
  "SheetUpdate s r f \<in> set (snd (store_and_write rw sid i name data)) \<Longrightarrow>
     s = sid \<and> r = ''Sheet1!E'' @ str_nat (i + 2) \<and> (\<exists>url. f = image_formula url)"
  by (auto simp: store_and_write_eval Let_def split: sum.splits)

lemma pose_uploads:
  "length (filter is_upload (snd (process_pose w sid api n i pd))) \<le> (if titled pd then 1 else 0)"
proof (cases "titled pd")
  case False
  then show ?thesis by (simp add: process_pose_untitled)
next
  case True
  have g: "filter is_upload (snd (generate_image w (row w i) (fst (craft_prompt pd)) api)) = []"
    using only_generate_image by (rule provider_no_upload)
  show ?thesis using True g store_uploads[of "row w i" sid i "fmt (title pd)"]
    by (simp add: process_pose_titled Let_def split: option.splits)
qed

lemma pose_sheet_writes:
  "length (filter is_sheet_write (snd (process_pose w sid api n i pd))) \<le> (if titled pd then 1 else 0)"
proof (cases "titled pd")
  case False
  then show ?thesis by (simp add: process_pose_untitled)
next
  case True
  have g: "filter is_sheet_write (snd (generate_image w (row w i) (fst (craft_prompt pd)) api)) = []"
    using only_generate_image by (rule provider_no_sheet_write)
  show ?thesis using True g store_sheet_writes[of "row w i" sid i "fmt (title pd)"]
    by (simp add: process_pose_titled Let_def split: option.splits)
qed

lemma rows_count:
  assumes "\<And>i pd. length (filter P (snd (process_pose w sid api n i pd))) \<le> (if titled pd then 1 else 0)"
  shows "length (filter P (snd (process_rows w sid api n i rows))) \<le> length (filter titled rows)"
proof (induction rows arbitrary: i)
  case Nil
  show ?case by (simp add: ret_def)
next
  case (Cons pd rows)
  have "length (filter P (snd (process_rows w sid api n i (pd # rows))))
      \<le> length (filter P (snd (process_pose w sid api n i pd)))
        + length (filter P (snd (process_rows w sid api n (Suc i) rows)))"
    by (simp add: snd_seq split: sum.splits)
  also have "\<dots> \<le> (if titled pd then 1 else 0) + length (filter titled rows)"
    using assms[of i pd] Cons.IH[of "Suc i"] by (rule add_mono)
  finally show ?case by (auto split: if_splits)
qed

lemma rows_event_origin:
  "e \<in> set (snd (process_rows w sid api n i rows)) \<Longrightarrow>
     \<exists>j<length rows. e \<in> set (snd (process_pose w sid api n (i + j) (rows ! j)))"
proof (induction rows arbitrary: i)
  case Nil
  then show ?case by (simp add: ret_def)
next
  case (Cons pd rows)
  from Cons.prems consider "e \<in> set (snd (process_pose w sid api n i pd))"
    | "e \<in> set (snd (process_rows w sid api n (Suc i) rows))"
    by (auto simp: snd_seq split: sum.splits)
  then show ?case
  proof cases
    case 1
    then show ?thesis by (intro exI[of _ 0]) simp
  next
    case 2
    from Cons.IH[OF 2] obtain j where "j < length rows"
      "e \<in> set (snd (process_pose w sid api n (Suc i + j) (rows ! j)))" by blast
    then show ?thesis by (intro exI[of _ "Suc j"]) simp
  qed
qed

lemma pose_SheetUpdate:
  assumes "SheetUpdate s r f \<in> set (snd (process_pose w sid api n i pd))"
  shows "s = sid \<and> r = ''Sheet1!E'' @ str_nat (i + 2) \<and> (\<exists>url. f = image_formula url)"
proof (cases "titled pd")
  case False
  with assms show ?thesis by (simp add: process_pose_untitled)
next
  case True
  have g: "SheetUpdate s r f \<notin> set (snd (generate_image w (row w i) (fst (craft_prompt pd)) api))"
    using only_generate_image by (rule provider_no_SheetUpdate)
  from assms True g
  have "\<exists>data. SheetUpdate s r f \<in> set (snd (store_and_write (row w i) sid i (fmt (title pd)) data))"
    by (auto simp: process_pose_titled Let_def split: option.splits if_splits)
  then show ?thesis using store_SheetUpdate by blast
qed

lemma pose_writes_cell:
  assumes "titled pd"
    and "fst (generate_image w (row w i) (fst (craft_prompt pd)) api) = Some data" and "data \<noteq> []"
    and "drive_create (row w i) = Inr uploaded" and "drive_permission (row w i) = Inr ()"
  shows "SheetUpdate sid (''Sheet1!E'' @ str_nat (i + 2))
           (image_formula (py_replace ''&export=download'' ''''
              (case webContentLink uploaded of None \<Rightarrow> '''' | Some l \<Rightarrow> l)))
         \<in> set (snd (process_pose w sid api n i pd))"
  using assms
  by (simp add: process_pose_titled store_and_write_eval Let_def split: sum.splits)

lemma digit_roundtrip: "d < 10 \<Longrightarrow> digit_value (digit_char d) = d"
proof -
  assume "d < 10"
  then have "d \<in> set [0..<10]" by simp
  then have "d \<in> {0, 1, 2, 3, 4, 5, 6, 7, 8, 9}" by (simp add: upt_rec) presburger
  then show ?thesis by (auto simp: digit_value_def digit_char_def)
qed

lemma decimal_roundtrip: "decimal_value (str_nat n) = n"
proof (induction n rule: str_nat.induct)
  case (1 n)
  show ?case
  proof (cases "n < 10")
    case True
    then show ?thesis by (subst str_nat.simps) (simp add: decimal_value_def digit_roundtrip)
  next
    case False
    with 1 have ih: "decimal_value (str_nat (n div 10)) = n div 10" by simp
    have "decimal_value (str_nat n) = 10 * decimal_value (str_nat (n div 10)) + digit_value (digit_char (n mod 10))"
      using False by (subst str_nat.simps) (simp add: decimal_value_def)
    then show ?thesis using ih by (simp add: digit_roundtrip)
  qed
qed

lemmas world_defs = sample_defs quick_success_def upload_refused_def quick_world_def
  refusing_world_def keyless_world_def




lemma rows_complete:
  assumes "\<forall>j<length rows. fst (process_pose w sid api n (i + j) (rows ! j)) = Inr ()"
  shows "fst (process_rows w sid api n i rows) = Inr ()
       \<and> (\<forall>j<length rows. set (snd (process_pose w sid api n (i + j) (rows ! j)))
                              \<subseteq> set (snd (process_rows w sid api n i rows)))"
  using assms
proof (induction rows arbitrary: i)
  case Nil
  show ?case by (simp add: ret_def)
next
  case (Cons pd rows)
  from Cons.prems have h: "fst (process_pose w sid api n i pd) = Inr ()" by force
  from Cons.prems have "\<forall>j<length rows. fst (process_pose w sid api n (Suc i + j) (rows ! j)) = Inr ()"
    by force
  from Cons.IH[OF this] have ih: "fst (process_rows w sid api n (Suc i) rows) = Inr ()"
    "\<And>j. j < length rows \<Longrightarrow> set (snd (process_pose w sid api n (Suc i + j) (rows ! j)))
                              \<subseteq> set (snd (process_rows w sid api n (Suc i) rows))"
    by auto
  have s: "snd (process_rows w sid api n i (pd # rows))
      = snd (process_pose w sid api n i pd) @ snd (process_rows w sid api n (Suc i) rows)"
    using h by (simp add: snd_seq)
  have "set (snd (process_pose w sid api n (i + j) ((pd # rows) ! j)))
          \<subseteq> set (snd (process_rows w sid api n i (pd # rows)))" if "j < length (pd # rows)" for j
  proof (cases j)
    case 0
    then show ?thesis unfolding s by simp
  next
    case (Suc j')
    with that ih(2)[of j'] show ?thesis unfolding s by auto
  qed
  moreover have "fst (process_rows w sid api n i (pd # rows)) = Inr ()"
    using h ih(1) by (simp add: fst_seq)
  ultimately show ?case by blast
qed

lemma rows_only:
  assumes "\<And>i pd. only P (process_pose w sid api n i pd)"
  shows "only P (process_rows w sid api n i rows)"
  by (induction rows arbitrary: i) (auto intro: assms)

lemma unsupported_api:
  "api \<notin> set api_choices \<Longrightarrow> generate_image w rw prompt api = (None, [LogError (''Unsupported API: '' @ api)])"
  by (simp add: generate_image_def api_functions_def api_choices_def)

lemma openai_no_key:
  "getenv w ''OPENAI_API_KEY'' = None \<or> getenv w ''OPENAI_API_KEY'' = Some '''' \<Longrightarrow>
     generate_image_openai w rw prompt = (None, [LogError ''OpenAI API key not found in environment variables''])"
  unfolding generate_image_openai_def by (elim disjE) simp_all

lemma ideogram_no_key:
  "getenv w ''IDEOGRAM_API_KEY'' = None \<or> getenv w ''IDEOGRAM_API_KEY'' = Some '''' \<Longrightarrow>
     generate_image_ideogram w rw prompt = (None, [LogError ''Ideogram API key not found in environment variables''])"
  unfolding generate_image_ideogram_def by (elim disjE) simp_all

lemma stability_no_key:
  "getenv w ''STABILITY_API_KEY'' = None \<or> getenv w ''STABILITY_API_KEY'' = Some '''' \<Longrightarrow>
     generate_image_stability w rw prompt = (None, [LogError ''Stability AI API key not found in environment variables''])"
  unfolding generate_image_stability_def by (elim disjE) simp_all

lemma missing_credential:
  assumes "credential_missing w api"
  shows "\<exists>msg. generate_image w rw prompt api = (None, [LogError msg])"
proof -
  from assms consider
      "api = ''openai''" "getenv w ''OPENAI_API_KEY'' = None \<or> getenv w ''OPENAI_API_KEY'' = Some ''''"
    | "api = ''ideogram''" "getenv w ''IDEOGRAM_API_KEY'' = None \<or> getenv w ''IDEOGRAM_API_KEY'' = Some ''''"
    | "api = ''stability''" "getenv w ''STABILITY_API_KEY'' = None \<or> getenv w ''STABILITY_API_KEY'' = Some ''''"
    unfolding credential_missing_def by blast
  then show ?thesis
  proof cases
    case 1
    then show ?thesis by (simp add: generate_image_def api_functions_def openai_no_key)
  next
    case 2
    then show ?thesis by (simp add: generate_image_def api_functions_def ideogram_no_key)
  next
    case 3
    then show ?thesis by (simp add: generate_image_def api_functions_def stability_no_key)
  qed
qed

lemma pose_without_image:
  assumes "titled pd"
    and "fst (generate_image w (row w i) (fst (craft_prompt pd)) api) = None
         \<or> fst (generate_image w (row w i) (fst (craft_prompt pd)) api) = Some []"
  shows "process_pose w sid api n i pd =
     (Inr (), [LogInfo (''Processing pose '' @ str_nat (i + 1) @ ''/'' @ str_nat n @ '': '' @ fmt (title pd)),
               LogInfo (''Generated prompt for '' @ fmt (title pd) @ '': '' @ fst (craft_prompt pd)),
               LogInfo (''Generating image for '' @ fmt (title pd) @ ''...'')]
              @ snd (generate_image w (row w i) (fst (craft_prompt pd)) api)
              @ [LogError (''Failed to generate image for '' @ fmt (title pd))])"
  using assms by (auto simp: process_pose_titled Let_def)

subsection \<open>Rows, uploads and cell writes\<close>

text \<open>
  Claim C4. A row without a title (the title is missing, empty or \<open>None\<close>) is skipped:
  the loop body returns at once and causes no event at all, so no prompt is sent, nothing
  is uploaded and no cell is written. Any row causes at most one upload and at most one
  cell write, and over a whole batch the uploads and the cell writes each number at most
  the rows with a title.
\<close>

theorem one_upload_one_write_per_row:
  "(\<not> titled pd \<longrightarrow> process_pose w sid api n i pd = (Inr (), []))
   \<and> length (filter is_upload (snd (process_pose w sid api n i pd))) \<le> 1
   \<and> length (filter is_sheet_write (snd (process_pose w sid api n i pd))) \<le> 1
   \<and> length (filter is_upload (snd (process_rows w sid api n i rows))) \<le> length (filter titled rows)
   \<and> length (filter is_sheet_write (snd (process_rows w sid api n i rows))) \<le> length (filter titled rows)"
proof -
  have "length (filter is_upload (snd (process_pose w sid api n i pd))) \<le> 1"
    using pose_uploads[of w sid api n i pd] by (simp split: if_splits)
  moreover have "length (filter is_sheet_write (snd (process_pose w sid api n i pd))) \<le> 1"
    using pose_sheet_writes[of w sid api n i pd] by (simp split: if_splits)
  moreover have "length (filter is_upload (snd (process_rows w sid api n i rows))) \<le> length (filter titled rows)"
    by (rule rows_count) (rule pose_uploads)
  moreover have "length (filter is_sheet_write (snd (process_rows w sid api n i rows))) \<le> length (filter titled rows)"
    by (rule rows_count) (rule pose_sheet_writes)
  ultimately show ?thesis using process_pose_untitled by blast
qed

theorem one_upload_one_write_per_row_witness:
  "\<not> titled [''Image Style'' \<mapsto> PyStr ''flat'']
   \<and> process_pose quick_world ''sheet1'' ''ideogram'' 3 1 [''Image Style'' \<mapsto> PyStr ''flat''] = (Inr (), [])"
proof -
  have h: "\<not> titled [''Image Style'' \<mapsto> PyStr ''flat'']"
    by (simp add: titled_def title_def dict_get_def)
  with one_upload_one_write_per_row[of "[''Image Style'' \<mapsto> PyStr ''flat'']" quick_world "''sheet1''" "''ideogram''" 3 1]
  show ?thesis by blast
qed

text \<open>
  Claim C5. Every cell write made for the data row at zero-based position \<open>i\<close> goes to
  the range \<open>Sheet1!E\<close> followed by the decimal numeral of \<open>i + 2\<close>, on the sheet of the
  run, and its value is the image formula of some address; when the row has a title, the
  provider returns a non-empty image and the file store accepts the upload, that write is
  made, with the formula of the cleaned content link. The loop hands each row its
  position, starting from 0, so positions 0, 1 and 2 write to rows 2, 3 and 4.
\<close>

theorem image_cell_is_row_plus_two:
  "(SheetUpdate s r f \<in> set (snd (process_pose w sid api n i pd)) \<longrightarrow>
       s = sid \<and> r = ''Sheet1!E'' @ str_nat (i + 2) \<and> (\<exists>url. f = image_formula url))
   \<and> (titled pd \<and> fst (generate_image w (row w i) (fst (craft_prompt pd)) api) = Some data \<and> data \<noteq> []
        \<and> drive_create (row w i) = Inr uploaded \<and> drive_permission (row w i) = Inr ()
       \<longrightarrow> SheetUpdate sid (''Sheet1!E'' @ str_nat (i + 2))
             (image_formula (py_replace ''&export=download'' ''''
                (case webContentLink uploaded of None \<Rightarrow> '''' | Some l \<Rightarrow> l)))
           \<in> set (snd (process_pose w sid api n i pd)))
   \<and> (SheetUpdate s r f \<in> set (snd (process_rows w sid api n 0 rows)) \<longrightarrow>
       (\<exists>j<length rows. r = ''Sheet1!E'' @ str_nat (j + 2)
            \<and> SheetUpdate s r f \<in> set (snd (process_pose w sid api n j (rows ! j)))))
   \<and> decimal_value (str_nat (i + 2)) = i + 2
   \<and> str_nat (0 + 2) = ''2'' \<and> str_nat (1 + 2) = ''3'' \<and> str_nat (2 + 2) = ''4''
   \<and> image_formula url = ''=IMAGE('' @ [CHR 0x22] @ url @ [CHR 0x22] @ '', 3)''"
proof -
  have a: "SheetUpdate s r f \<in> set (snd (process_pose w sid api n i pd)) \<longrightarrow>
       s = sid \<and> r = ''Sheet1!E'' @ str_nat (i + 2) \<and> (\<exists>url. f = image_formula url)"
    using pose_SheetUpdate by blast
  have b: "titled pd \<and> fst (generate_image w (row w i) (fst (craft_prompt pd)) api) = Some data \<and> data \<noteq> []
        \<and> drive_create (row w i) = Inr uploaded \<and> drive_permission (row w i) = Inr ()
       \<longrightarrow> SheetUpdate sid (''Sheet1!E'' @ str_nat (i + 2))
             (image_formula (py_replace ''&export=download'' ''''
                (case webContentLink uploaded of None \<Rightarrow> '''' | Some l \<Rightarrow> l)))
           \<in> set (snd (process_pose w sid api n i pd))"
    using pose_writes_cell by blast
  have c: "SheetUpdate s r f \<in> set (snd (process_rows w sid api n 0 rows)) \<longrightarrow>
       (\<exists>j<length rows. r = ''Sheet1!E'' @ str_nat (j + 2)
            \<and> SheetUpdate s r f \<in> set (snd (process_pose w sid api n j (rows ! j))))"
  proof
    assume "SheetUpdate s r f \<in> set (snd (process_rows w sid api n 0 rows))"
    from rows_event_origin[OF this] obtain j where j: "j < length rows"
      "SheetUpdate s r f \<in> set (snd (process_pose w sid api n j (rows ! j)))" by auto
    with pose_SheetUpdate[OF j(2)] show "\<exists>j<length rows. r = ''Sheet1!E'' @ str_nat (j + 2)
            \<and> SheetUpdate s r f \<in> set (snd (process_pose w sid api n j (rows ! j)))" by blast
  qed
  have d: "str_nat (0 + 2) = ''2'' \<and> str_nat (1 + 2) = ''3'' \<and> str_nat (2 + 2) = ''4''"
    by (simp add: str_nat.simps digit_char_def)
  show ?thesis using a b c d decimal_roundtrip[of "i + 2"] by (simp only: image_formula_def) 
qed

theorem image_cell_is_row_plus_two_witness:
  "SheetUpdate ''sheet1'' ''Sheet1!E2'' (image_formula ''https://drive.google.com/uc?id=f1'')
     \<in> set (snd (process_pose quick_world ''sheet1'' ''ideogram'' 3 0 [''Content Title'' \<mapsto> PyStr ''Tree'']))
   \<and> SheetUpdate ''sheet1'' ''Sheet1!E2'' (image_formula ''https://drive.google.com/uc?id=f1'')
     \<in> set (snd (process_rows quick_world ''sheet1'' ''ideogram'' 3 0 [[''Content Title'' \<mapsto> PyStr ''Tree'']]))"
proof -
  let ?pd = "[''Content Title'' \<mapsto> PyStr ''Tree'']"
  have h: "titled ?pd \<and> fst (generate_image quick_world (row quick_world 0) (fst (craft_prompt ?pd)) ''ideogram'') = Some ''PNG''
      \<and> ''PNG'' \<noteq> [] \<and> drive_create (row quick_world 0) = Inr sample_file
      \<and> drive_permission (row quick_world 0) = Inr ()"
    by code_simp
  have l: "py_replace ''&export=download'' '''' (case webContentLink sample_file of None \<Rightarrow> '''' | Some l \<Rightarrow> l)
      = ''https://drive.google.com/uc?id=f1''" by code_simp
  have n: "str_nat (0 + 2) = ''2''" by code_simp
  note T = image_cell_is_row_plus_two[where w=quick_world and sid="''sheet1''" and api="''ideogram''"
      and n=3 and i=0 and pd="?pd" and data="''PNG''" and uploaded=sample_file]
  from T h have "SheetUpdate ''sheet1'' (''Sheet1!E'' @ str_nat (0 + 2))
             (image_formula (py_replace ''&export=download'' ''''
                (case webContentLink sample_file of None \<Rightarrow> '''' | Some l \<Rightarrow> l)))
           \<in> set (snd (process_pose quick_world ''sheet1'' ''ideogram'' 3 0 ?pd))"
    by blast
  then have m: "SheetUpdate ''sheet1'' ''Sheet1!E2'' (image_formula ''https://drive.google.com/uc?id=f1'')
     \<in> set (snd (process_pose quick_world ''sheet1'' ''ideogram'' 3 0 ?pd))"
    unfolding l n by simp
  have p: "process_rows quick_world ''sheet1'' ''ideogram'' 3 0 [?pd] = process_pose quick_world ''sheet1'' ''ideogram'' 3 0 ?pd"
    by (cases "process_pose quick_world ''sheet1'' ''ideogram'' 3 0 ?pd") (simp add: io_defs split: sum.splits)
  from m p show ?thesis by simp
qed

subsection \<open>Failures\<close>





text \<open>
  Claim C3, as amended. A provider name outside the three choices ends the run in the
  argument parser, before anything else happens, and \<open>generate_image\<close> never falls back
  to a provider for such a name: it logs \<open>Unsupported API\<close> and returns nothing. A missing
  or empty credential does not end the run: the provider logs the missing key and returns
  nothing without sending a request, every row with a title is processed and logged as
  failed, the loop causes log events only, and it returns normally.
\<close>

theorem configuration_failures:
  "(api \<notin> set api_choices \<longrightarrow>
        main w sheet_arg (Some api) = (Inl (SystemExit 2), [])
        \<and> generate_image w rw prompt api = (None, [LogError (''Unsupported API: '' @ api)]))
   \<and> (credential_missing w api \<longrightarrow>
        (\<exists>msg. generate_image w rw prompt api = (None, [LogError msg]))
        \<and> fst (process_rows w sid api n i rows) = Inr ()
        \<and> only is_log (process_rows w sid api n i rows)
        \<and> (\<forall>j<length rows. titled (rows ! j) \<longrightarrow>
              LogError (''Failed to generate image for '' @ fmt (title (rows ! j)))
                \<in> set (snd (process_rows w sid api n i rows))))"
proof (intro conjI impI)
  assume "api \<notin> set api_choices"
  then show "main w sheet_arg (Some api) = (Inl (SystemExit 2), [])"
    by (simp add: main_def parse_arguments_def) (simp add: raise_def)
next
  assume "api \<notin> set api_choices"
  then show "generate_image w rw prompt api = (None, [LogError (''Unsupported API: '' @ api)])"
    by (rule unsupported_api)
next
  assume "credential_missing w api"
  then show "\<exists>msg. generate_image w rw prompt api = (None, [LogError msg])" by (rule missing_credential)
next
  assume m: "credential_missing w api"
  have pose: "process_pose w sid api n k pd =
     (Inr (), [LogInfo (''Processing pose '' @ str_nat (k + 1) @ ''/'' @ str_nat n @ '': '' @ fmt (title pd)),
               LogInfo (''Generated prompt for '' @ fmt (title pd) @ '': '' @ fst (craft_prompt pd)),
               LogInfo (''Generating image for '' @ fmt (title pd) @ ''...'')]
              @ snd (generate_image w (row w k) (fst (craft_prompt pd)) api)
              @ [LogError (''Failed to generate image for '' @ fmt (title pd))])"
    if "titled pd" for k pd
    using that missing_credential[OF m, of "row w k" "fst (craft_prompt pd)"]
    by (intro pose_without_image) auto
  have ok: "fst (process_pose w sid api n k pd) = Inr ()" for k pd
    by (cases "titled pd") (simp_all add: pose process_pose_untitled)
  have logs: "only is_log (process_pose w sid api n k pd)" for k pd
    using missing_credential[OF m, of "row w k" "fst (craft_prompt pd)"]
    by (cases "titled pd") (auto simp: pose process_pose_untitled)
  have failed: "LogError (''Failed to generate image for '' @ fmt (title pd))
      \<in> set (snd (process_pose w sid api n k pd))" if "titled pd" for k pd
    by (simp add: pose[OF that])
  from rows_complete[of rows w sid api n i] ok
  have c: "fst (process_rows w sid api n i rows) = Inr ()"
    "\<And>j. j < length rows \<Longrightarrow> set (snd (process_pose w sid api n (i + j) (rows ! j)))
                              \<subseteq> set (snd (process_rows w sid api n i rows))"
    by blast+
  show "fst (process_rows w sid api n i rows) = Inr ()" by (rule c(1))
  show "only is_log (process_rows w sid api n i rows)" by (rule rows_only) (rule logs)
  show "\<forall>j<length rows. titled (rows ! j) \<longrightarrow>
              LogError (''Failed to generate image for '' @ fmt (title (rows ! j)))
                \<in> set (snd (process_rows w sid api n i rows))"
    using failed c(2) by blast
qed

theorem configuration_failures_witness:
  "main quick_world (Some ''sheet1'') (Some ''dalle'') = (Inl (SystemExit 2), [])
   \<and> generate_image quick_world quick_success ''tree'' ''dalle'' = (None, [LogError ''Unsupported API: dalle''])
   \<and> fst (process_rows keyless_world ''sheet1'' ''ideogram'' 1 0 [[''Content Title'' \<mapsto> PyStr ''Tree'']]) = Inr ()
   \<and> LogError ''Failed to generate image for Tree''
        \<in> set (snd (process_rows keyless_world ''sheet1'' ''ideogram'' 1 0 [[''Content Title'' \<mapsto> PyStr ''Tree'']]))"
proof -
  let ?pd = "[''Content Title'' \<mapsto> PyStr ''Tree'']"
  have a: "''dalle'' \<notin> set api_choices" by (simp add: api_choices_def)
  have b: "credential_missing keyless_world ''ideogram''"
    by (simp add: credential_missing_def world_defs)
  have t: "titled ?pd" "fmt (title ?pd) = ''Tree''"
    by (simp_all add: titled_def title_def dict_get_def)
  from configuration_failures[where api="''dalle''" and w=quick_world and sheet_arg="Some ''sheet1''"
        and rw=quick_success and prompt="''tree''"] a
  have 1: "main quick_world (Some ''sheet1'') (Some ''dalle'') = (Inl (SystemExit 2), [])
      \<and> generate_image quick_world quick_success ''tree'' ''dalle'' = (None, [LogError ''Unsupported API: dalle''])"
    by simp
  from configuration_failures[where api="''ideogram''" and w=keyless_world and sid="''sheet1''"
        and n=1 and i=0 and rows="[?pd]"] b
  have "fst (process_rows keyless_world ''sheet1'' ''ideogram'' 1 0 [?pd]) = Inr ()
      \<and> (\<forall>j<length [?pd]. titled ([?pd] ! j) \<longrightarrow>
              LogError (''Failed to generate image for '' @ fmt (title ([?pd] ! j)))
                \<in> set (snd (process_rows keyless_world ''sheet1'' ''ideogram'' 1 0 [?pd])))"
    by blast
  with t have 2: "fst (process_rows keyless_world ''sheet1'' ''ideogram'' 1 0 [?pd]) = Inr ()
      \<and> LogError ''Failed to generate image for Tree''
          \<in> set (snd (process_rows keyless_world ''sheet1'' ''ideogram'' 1 0 [?pd]))"
    by simp
  from 1 2 show ?thesis by blast
qed

text \<open>
  Claim C3 as stated fails: without any credential the run raises nothing, processes the
  rows and completes.
\<close>

theorem missing_credential_does_not_abort_counterexample:
  "fst (main keyless_world (Some ''sheet1'') None) = Inr ()
   \<and> LogInfo ''Processing pose 1/3: Warrior II'' \<in> set (snd (main keyless_world (Some ''sheet1'') None))
   \<and> LogInfo ''Processing pose 3/3: Tree'' \<in> set (snd (main keyless_world (Some ''sheet1'') None))"
  by code_simp

subsection \<open>Reading the sheet\<close>

lemma fold_upd_other:
  "k \<notin> fst ` set kvs \<Longrightarrow> fold (\<lambda>(k, v) d. d(k \<mapsto> PyStr v)) kvs m k = m k"
  by (induction kvs arbitrary: m) auto

lemma fold_upd_dom:
  "dom (fold (\<lambda>(k, v) d. d(k \<mapsto> PyStr v)) kvs m) = dom m \<union> fst ` set kvs"
  by (induction kvs arbitrary: m) auto

lemma fold_upd_value:
  "distinct (map fst kvs) \<Longrightarrow> (k, v) \<in> set kvs \<Longrightarrow>
     fold (\<lambda>(k, v) d. d(k \<mapsto> PyStr v)) kvs m k = Some (PyStr v)"
proof (induction kvs arbitrary: m)
  case Nil
  then show ?case by simp
next
  case (Cons kv kvs)
  obtain k' v' where kv: "kv = (k', v')" by (cases kv)
  show ?case
  proof (cases "(k, v) = (k', v')")
    case True
    with Cons.prems kv have "k \<notin> fst ` set kvs" by auto
    then have "fold (\<lambda>(k, v) d. d(k \<mapsto> PyStr v)) kvs (m(k \<mapsto> PyStr v)) k = (m(k \<mapsto> PyStr v)) k"
      by (rule fold_upd_other)
    then have "fold (\<lambda>(k, v) d. d(k \<mapsto> PyStr v)) kvs (m(k \<mapsto> PyStr v)) k = Some (PyStr v)"
      by simp
    with True kv show ?thesis by (simp del: fun_upd_apply)
  next
    case False
    with Cons.prems kv have "(k, v) \<in> set kvs" "distinct (map fst kvs)" by auto
    with Cons.IH kv show ?thesis by simp
  qed
qed

lemma zip_keys: "length ks \<le> length vs \<Longrightarrow> fst ` set (zip ks vs) = set ks"
proof -
  assume "length ks \<le> length vs"
  then have "map fst (zip ks vs) = ks" by (simp add: map_fst_zip_take min_def)
  then show ?thesis by (metis set_map)
qed

lemma dict_zip_dom: "length ks \<le> length vs \<Longrightarrow> dom (dict_zip ks vs) = set ks"
  by (simp add: dict_zip_def fold_upd_dom zip_keys)

lemma dict_zip_value:
  assumes "distinct ks" "c < length ks" "c < length vs"
  shows "dict_zip ks vs (ks ! c) = Some (PyStr (vs ! c))"
proof -
  have "distinct (map fst (zip ks vs))" using assms(1) by (simp add: map_fst_zip_take)
  moreover have "(ks ! c, vs ! c) \<in> set (zip ks vs)"
    using assms(2,3) by (metis in_set_zip fst_conv snd_conv)
  ultimately show ?thesis unfolding dict_zip_def by (rule fold_upd_value)
qed

lemma zip_take_keys: "zip ks vs = zip ks (take (length ks) vs)"
  by (induction ks vs rule: list_induct2') auto

lemma dict_zip_take: "dict_zip ks vs = dict_zip ks (take (length ks) vs)"
  using zip_take_keys[of ks vs] by (simp add: dict_zip_def)

lemma row_extended_length: "length headers \<le> length (row_extended headers r)"
  by (simp add: row_extended_def)

lemma row_extended_nth:
  "c < length headers \<Longrightarrow> row_extended headers r ! c = (if c < length r then r ! c else '''')"
  by (simp add: row_extended_def nth_append)

lemma row_extended_take:
  "take (length headers) (row_extended headers r)
     = take (length headers) r @ replicate (length headers - length r) ''''"
  by (simp add: row_extended_def)

lemma get_sheet_data_rows:
  "sheet_values w = Inr (Some (headers # rest)) \<Longrightarrow>
     get_sheet_data w sid =
       (Inr (map (\<lambda>r. dict_zip headers (row_extended headers r)) rest), [SheetGet sid ''Sheet1!A1:E''])"
  by (simp add: get_sheet_data_def io_defs)

lemma get_sheet_data_empty:
  "sheet_values w = Inr None \<or> sheet_values w = Inr (Some []) \<Longrightarrow>
     get_sheet_data w sid =
       (Inr [], [SheetGet sid ''Sheet1!A1:E'', LogError ''No data found in sheet''])"
  by (auto simp: get_sheet_data_def io_defs)

text \<open>
  Claim C10. When the response has no values (the key is absent or the list is empty)
  \<open>get_sheet_data\<close> logs an error and returns the empty list without raising. Otherwise
  the first row is the header and every further row becomes one dictionary whose keys are
  exactly the header names: the row is cut to the number of header columns or padded on
  the right with empty strings up to it, so that there is one value per column; with
  distinct header names, column \<open>c\<close> holds cell \<open>c\<close> of the row, or the empty string when
  the row is shorter, and cells beyond the header are dropped.
\<close>

theorem sheet_rows_normalised:
  "((sheet_values w = Inr None \<or> sheet_values w = Inr (Some [])) \<longrightarrow>
       get_sheet_data w sid = (Inr [], [SheetGet sid ''Sheet1!A1:E'', LogError ''No data found in sheet'']))
   \<and> (sheet_values w = Inr (Some (headers # rest)) \<longrightarrow>
       (\<exists>ds. get_sheet_data w sid = (Inr ds, [SheetGet sid ''Sheet1!A1:E''])
          \<and> length ds = length rest
          \<and> (\<forall>r<length rest.
                dom (ds ! r) = set headers
              \<and> ds ! r = dict_zip headers
                   (take (length headers) (rest ! r) @ replicate (length headers - length (rest ! r)) '''')
              \<and> length (take (length headers) (rest ! r) @ replicate (length headers - length (rest ! r)) '''')
                   = length headers
              \<and> (distinct headers \<longrightarrow>
                   (\<forall>c<length headers.
                      (ds ! r) (headers ! c)
                        = Some (PyStr (if c < length (rest ! r) then rest ! r ! c else '''')))))))"
proof (intro conjI impI)
  assume "sheet_values w = Inr None \<or> sheet_values w = Inr (Some [])"
  then show "get_sheet_data w sid = (Inr [], [SheetGet sid ''Sheet1!A1:E'', LogError ''No data found in sheet''])"
    by (rule get_sheet_data_empty)
next
  assume h: "sheet_values w = Inr (Some (headers # rest))"
  let ?ds = "map (\<lambda>r. dict_zip headers (row_extended headers r)) rest"
  have "dom (?ds ! r) = set headers" if "r < length rest" for r
    using that by (simp add: dict_zip_dom row_extended_length)
  moreover have "?ds ! r = dict_zip headers
       (take (length headers) (rest ! r) @ replicate (length headers - length (rest ! r)) '''')"
    if "r < length rest" for r
    using that dict_zip_take[of headers "row_extended headers (rest ! r)"]
    by (simp add: row_extended_take)
  moreover have "length (take (length headers) (rest ! r) @ replicate (length headers - length (rest ! r)) '''')
                   = length headers" for r
    by simp
  moreover have "(?ds ! r) (headers ! c) = Some (PyStr (if c < length (rest ! r) then rest ! r ! c else ''''))"
    if "r < length rest" "distinct headers" "c < length headers" for r c
  proof -
    have "c < length (row_extended headers (rest ! r))"
      using that(3) row_extended_length[of headers "rest ! r"] by simp
    from dict_zip_value[OF that(2,3) this] that(1,3) show ?thesis
      by (simp add: row_extended_nth)
  qed
  ultimately show "\<exists>ds. get_sheet_data w sid = (Inr ds, [SheetGet sid ''Sheet1!A1:E''])
          \<and> length ds = length rest
          \<and> (\<forall>r<length rest.
                dom (ds ! r) = set headers
              \<and> ds ! r = dict_zip headers
                   (take (length headers) (rest ! r) @ replicate (length headers - length (rest ! r)) '''')
              \<and> length (take (length headers) (rest ! r) @ replicate (length headers - length (rest ! r)) '''')
                   = length headers
              \<and> (distinct headers \<longrightarrow>
                   (\<forall>c<length headers.
                      (ds ! r) (headers ! c)
                        = Some (PyStr (if c < length (rest ! r) then rest ! r ! c else '''')))))"
    using get_sheet_data_rows[OF h, of sid] by (intro exI[of _ ?ds]) simp
qed

theorem sheet_rows_normalised_witness:
  "get_sheet_data blank_sheet ''sheet1''
     = (Inr [], [SheetGet ''sheet1'' ''Sheet1!A1:E'', LogError ''No data found in sheet''])
   \<and> (\<exists>ds. get_sheet_data ragged_sheet ''sheet1'' = (Inr ds, [SheetGet ''sheet1'' ''Sheet1!A1:E''])
         \<and> length ds = 2
         \<and> dom (ds ! 0) = {''Content Title'', ''Image Style''}
         \<and> (ds ! 0) ''Content Title'' = Some (PyStr ''Tree'')
         \<and> (ds ! 0) ''Image Style'' = Some (PyStr '''')
         \<and> dom (ds ! 1) = {''Content Title'', ''Image Style''}
         \<and> (ds ! 1) ''Content Title'' = Some (PyStr ''Crow'')
         \<and> (ds ! 1) ''Image Style'' = Some (PyStr ''flat''))"
proof -
  let ?hs = "[''Content Title'', ''Image Style'']"
  let ?rest = "[[''Tree''], [''Crow'', ''flat'', ''white'', ''calm'']]"
  have a: "sheet_values blank_sheet = Inr None \<or> sheet_values blank_sheet = Inr (Some [])"
    by (simp add: blank_sheet_def)
  have b: "sheet_values ragged_sheet = Inr (Some (?hs # ?rest))"
    by (simp add: ragged_sheet_def)
  have d: "distinct ?hs" by simp
  note T0 = sheet_rows_normalised[where w=blank_sheet and sid="''sheet1''" and headers="?hs" and rest="?rest"]
  from T0[THEN conjunct1, THEN mp, OF a]
  have 1: "get_sheet_data blank_sheet ''sheet1''
     = (Inr [], [SheetGet ''sheet1'' ''Sheet1!A1:E'', LogError ''No data found in sheet''])" .
  note T = sheet_rows_normalised[where w=ragged_sheet and sid="''sheet1''" and headers="?hs" and rest="?rest"]
  from T[THEN conjunct2, THEN mp, OF b]
  obtain ds where ds: "get_sheet_data ragged_sheet ''sheet1'' = (Inr ds, [SheetGet ''sheet1'' ''Sheet1!A1:E''])
          \<and> length ds = length ?rest
          \<and> (\<forall>r<length ?rest.
                dom (ds ! r) = set ?hs
              \<and> ds ! r = dict_zip ?hs
                   (take (length ?hs) (?rest ! r) @ replicate (length ?hs - length (?rest ! r)) '''')
              \<and> length (take (length ?hs) (?rest ! r) @ replicate (length ?hs - length (?rest ! r)) '''')
                   = length ?hs
              \<and> (distinct ?hs \<longrightarrow>
                   (\<forall>c<length ?hs.
                      (ds ! r) (?hs ! c)
                        = Some (PyStr (if c < length (?rest ! r) then ?rest ! r ! c else '''')))))" ..
  then have g: "get_sheet_data ragged_sheet ''sheet1'' = (Inr ds, [SheetGet ''sheet1'' ''Sheet1!A1:E''])"
    and l: "length ds = length ?rest"
    and rows: "\<forall>r<length ?rest.
                dom (ds ! r) = set ?hs
              \<and> ds ! r = dict_zip ?hs
                   (take (length ?hs) (?rest ! r) @ replicate (length ?hs - length (?rest ! r)) '''')
              \<and> length (take (length ?hs) (?rest ! r) @ replicate (length ?hs - length (?rest ! r)) '''')
                   = length ?hs
              \<and> (distinct ?hs \<longrightarrow>
                   (\<forall>c<length ?hs.
                      (ds ! r) (?hs ! c)
                        = Some (PyStr (if c < length (?rest ! r) then ?rest ! r ! c else ''''))))"
    by (rule conjunct1, rule conjunct2[THEN conjunct1], rule conjunct2[THEN conjunct2])
  have lt: "0 < length ?rest" "1 < length ?rest" by simp_all
  note R0 = rows[rule_format, OF lt(1)] and R1 = rows[rule_format, OF lt(2)]
  note r0 = R0[THEN conjunct1] and r1 = R1[THEN conjunct1]
  note c0 = R0[THEN conjunct2, THEN conjunct2, THEN conjunct2, THEN mp, OF d]
  note c1 = R1[THEN conjunct2, THEN conjunct2, THEN conjunct2, THEN mp, OF d]
  have v0: "(ds ! 0) ''Content Title'' = Some (PyStr ''Tree'')" "(ds ! 0) ''Image Style'' = Some (PyStr '''')"
    using c0[rule_format, of 0] c0[rule_format, of 1] by simp_all
  have v1: "(ds ! 1) ''Content Title'' = Some (PyStr ''Crow'')" "(ds ! 1) ''Image Style'' = Some (PyStr ''flat'')"
    using c1[rule_format, of 0] c1[rule_format, of 1] by simp_all
  from r0 r1 have dm: "dom (ds ! 0) = {''Content Title'', ''Image Style''}"
    "dom (ds ! 1) = {''Content Title'', ''Image Style''}" by simp_all
  from l have l2: "length ds = 2" by simp
  from g l2 dm v0 v1 have F: "get_sheet_data ragged_sheet ''sheet1'' = (Inr ds, [SheetGet ''sheet1'' ''Sheet1!A1:E''])
         \<and> length ds = 2
         \<and> dom (ds ! 0) = {''Content Title'', ''Image Style''}
         \<and> (ds ! 0) ''Content Title'' = Some (PyStr ''Tree'')
         \<and> (ds ! 0) ''Image Style'' = Some (PyStr '''')
         \<and> dom (ds ! 1) = {''Content Title'', ''Image Style''}
         \<and> (ds ! 1) ''Content Title'' = Some (PyStr ''Crow'')
         \<and> (ds ! 1) ''Image Style'' = Some (PyStr ''flat'')" by (intro conjI)
  have 2: "\<exists>ds. get_sheet_data ragged_sheet ''sheet1'' = (Inr ds, [SheetGet ''sheet1'' ''Sheet1!A1:E''])
         \<and> length ds = 2
         \<and> dom (ds ! 0) = {''Content Title'', ''Image Style''}
         \<and> (ds ! 0) ''Content Title'' = Some (PyStr ''Tree'')
         \<and> (ds ! 0) ''Image Style'' = Some (PyStr '''')
         \<and> dom (ds ! 1) = {''Content Title'', ''Image Style''}
         \<and> (ds ! 1) ''Content Title'' = Some (PyStr ''Crow'')
         \<and> (ds ! 1) ''Image Style'' = Some (PyStr ''flat'')"
    by (rule exI[of _ ds]) (fact F)
  from 1 2 show ?thesis by (rule conjI)
qed

end
